theory Spec2Isabelle
  imports Main "HOL-Library.AList"
begin

section \<open>JavaScript values, errors and the host runtime\<close>

text \<open>
  SafeVault (src/src/index.ts) is a TypeScript class over a host \<open>Storage\<close> object.
  The values it handles are JSON values; a property read on a parsed record may also give
  \<open>undefined\<close>. In an object, the list holds the own properties in enumeration order
  (what \<open>Object.entries\<close> walks through). Numbers are the integers: time stamps and TTLs
  are millisecond counts, on which the arithmetic of the source is exact.
\<close>

datatype json =
    JNull
  | JBool bool
  | JNum int
  | JStr string
  | JArr "json list"
  | JObj "(string \<times> json) list"

datatype jsval = Undefined | Json json

abbreviation null :: jsval where
  "null \<equiv> Json JNull"

datatype error = SyntaxError | TypeError | QuotaExceededError | Thrown string

text \<open>
  What the class calls but does not define: \<open>JSON.stringify\<close>, \<open>JSON.parse\<close>, the
  numeric coercion the language applies when a string, an array or an object is compared
  with a number, and the host store's refusal of a write (a full quota). They are
  parameters of the model. Each of them may throw.
\<close>

record runtime =
  JSON_stringify :: "json \<Rightarrow> error + string"
  JSON_parse :: "string \<Rightarrow> error + json"
  ToNumber :: "json \<Rightarrow> int option"
  setItem_fault :: "(string \<times> string) list \<Rightarrow> string \<Rightarrow> string \<Rightarrow> error option"

text \<open>
  The caller's functions. A subscriber callback either returns (\<open>None\<close>) or throws; it
  has an identity, as the members of the source's \<open>Set\<close> of callbacks have. The error
  hook \<open>onError\<close> and the encryption pair are options of the constructor.
\<close>

record callback =
  cb_id :: nat
  cb_run :: "jsval \<Rightarrow> error option"

record cipher =
  encrypt :: "string \<Rightarrow> error + string"
  decrypt :: "string \<Rightarrow> error + string"

type_synonym hook = "error \<Rightarrow> string \<Rightarrow> string \<Rightarrow> error option"

record vault =
  prefix :: string
  version :: string
  encryption :: "cipher option"
  onError :: "hook option"

text \<open>
  What an operation can change: the host store (an ordered list of key/text pairs, which
  several vaults may share), this vault's subscription registry, and what an observer
  sees of the calls made to the caller's functions and to the console.
\<close>

datatype event =
    OnErrorCall error string string
  | ConsoleError error string string
  | ListenerCall nat jsval
  | UpdaterCall jsval

record state =
  storage :: "(string \<times> string) list"
  listeners :: "string \<rightharpoonup> callback list"
  trace :: "event list"

type_synonym 'a outcome = "(error + 'a) \<times> state"

section \<open>The host store\<close>

definition getItem :: "(string \<times> string) list \<Rightarrow> string \<Rightarrow> string option" where
  "getItem st k = map_of st k"

definition setItem ::
  "runtime \<Rightarrow> string \<Rightarrow> string \<Rightarrow> (string \<times> string) list \<Rightarrow> error + (string \<times> string) list" where
  "setItem rt k v st =
     (case setItem_fault rt st k v of
        Some e \<Rightarrow> Inl e
      | None \<Rightarrow> Inr (AList.update k v st))"

definition removeItem :: "string \<Rightarrow> (string \<times> string) list \<Rightarrow> (string \<times> string) list" where
  "removeItem k st = AList.delete k st"

section \<open>Private helpers of the class\<close>

definition getKey :: "vault \<Rightarrow> string \<Rightarrow> string" where
  "getKey cfg key = prefix cfg @ key"

definition startsWith :: "string \<Rightarrow> string \<Rightarrow> bool" where
  "startsWith k p = (take (length p) k = p)"

text \<open>\<open>getAllKeys\<close>: the keys of the store, in its order, that are non-empty and start with the prefix.\<close>

definition getAllKeys :: "vault \<Rightarrow> (string \<times> string) list \<Rightarrow> string list" where
  "getAllKeys cfg st = filter (\<lambda>k. k \<noteq> [] \<and> startsWith k (prefix cfg)) (map fst st)"

text \<open>
  \<open>callbacks.forEach(callback => callback(value))\<close>: in the order of registration; a
  callback that throws ends the walk and the later ones are not called.
\<close>

fun run_callbacks :: "callback list \<Rightarrow> jsval \<Rightarrow> state \<Rightarrow> unit outcome" where
  "run_callbacks [] v s = (Inr (), s)"
| "run_callbacks (c # cs) v s =
     (let s' = s\<lparr>trace := trace s @ [ListenerCall (cb_id c) v]\<rparr>
      in case cb_run c v of
           Some e \<Rightarrow> (Inl e, s')
         | None \<Rightarrow> run_callbacks cs v s')"

definition notifyListeners :: "string \<Rightarrow> jsval \<Rightarrow> state \<Rightarrow> unit outcome" where
  "notifyListeners key v s =
     (case listeners s key of
        None \<Rightarrow> (Inr (), s)
      | Some callbacks \<Rightarrow> run_callbacks callbacks v s)"

definition handleError :: "vault \<Rightarrow> error \<Rightarrow> string \<Rightarrow> string \<Rightarrow> state \<Rightarrow> unit outcome" where
  "handleError cfg e operation key s =
     (case onError cfg of
        Some h \<Rightarrow>
          (let s' = s\<lparr>trace := trace s @ [OnErrorCall e operation key]\<rparr>
           in case h e operation key of
                Some e' \<Rightarrow> (Inl e', s')
              | None \<Rightarrow> (Inr (), s'))
      | None \<Rightarrow> (Inr (), s\<lparr>trace := trace s @ [ConsoleError e operation key]\<rparr>))"

section \<open>The stored record\<close>

text \<open>
  \<open>set\<close> builds \<open>{value, expiry, version, metadata}\<close> and serialises it; a property that
  is \<open>undefined\<close> is left out by \<open>JSON.stringify\<close>.
\<close>

definition envelope :: "jsval \<Rightarrow> json \<Rightarrow> string \<Rightarrow> json option \<Rightarrow> json" where
  "envelope v expiry ver metadata =
     JObj ((case v of Undefined \<Rightarrow> [] | Json j \<Rightarrow> [(''value'', j)]) @
           [(''expiry'', expiry), (''version'', JStr ver)] @
           (case metadata of None \<Rightarrow> [] | Some m \<Rightarrow> [(''metadata'', m)]))"

text \<open>Reading a property: of \<open>null\<close> it throws a TypeError, of a value without it gives \<open>undefined\<close>.\<close>

fun get_prop :: "json \<Rightarrow> string \<Rightarrow> error + jsval" where
  "get_prop JNull name = Inl TypeError"
| "get_prop (JObj kvs) name = Inr (case map_of kvs name of None \<Rightarrow> Undefined | Some j \<Rightarrow> Json j)"
| "get_prop _ name = Inr Undefined"

fun to_number :: "runtime \<Rightarrow> jsval \<Rightarrow> int option" where
  "to_number rt Undefined = None"
| "to_number rt (Json JNull) = Some 0"
| "to_number rt (Json (JBool b)) = Some (if b then 1 else 0)"
| "to_number rt (Json (JNum n)) = Some n"
| "to_number rt (Json j) = ToNumber rt j"

text \<open>
  \<open>data.expiry !== null && Date.now() > data.expiry\<close>; a comparison with what is not a
  number (\<open>NaN\<close>, here \<open>None\<close>) is false.
\<close>

definition is_expired :: "runtime \<Rightarrow> int \<Rightarrow> jsval \<Rightarrow> bool" where
  "is_expired rt now e =
     (e \<noteq> null \<and> (case to_number rt e of None \<Rightarrow> False | Some n \<Rightarrow> now > n))"

text \<open>
  The three lines that \<open>get\<close>, \<open>getTTL\<close> and \<open>cleanupExpired\<close> each repeat: decrypt the
  stored text when an encryption pair is configured, then \<open>JSON.parse\<close> it.
\<close>

definition decode :: "vault \<Rightarrow> runtime \<Rightarrow> string \<Rightarrow> error + json" where
  "decode cfg rt item =
     (case (case encryption cfg of Some c \<Rightarrow> decrypt c item | None \<Rightarrow> Inr item) of
        Inl e \<Rightarrow> Inl e
      | Inr decrypted \<Rightarrow> JSON_parse rt decrypted)"

definition encode :: "vault \<Rightarrow> runtime \<Rightarrow> json \<Rightarrow> error + string" where
  "encode cfg rt data =
     (case JSON_stringify rt data of
        Inl e \<Rightarrow> Inl e
      | Inr serialized \<Rightarrow>
          (case encryption cfg of Some c \<Rightarrow> encrypt c serialized | None \<Rightarrow> Inr serialized))"

section \<open>Public operations\<close>

text \<open>
  Each operation takes the vault, the runtime, the reading of \<open>Date.now()\<close> during the
  call, its arguments and the state, and returns the state with either its result or the
  error it lets through to the caller.
\<close>

definition remove_vault :: "vault \<Rightarrow> string \<Rightarrow> state \<Rightarrow> unit outcome" where
  "remove_vault cfg key s =
     notifyListeners key null (s\<lparr>storage := removeItem (getKey cfg key) (storage s)\<rparr>)"

definition set_try ::
  "vault \<Rightarrow> runtime \<Rightarrow> int \<Rightarrow> string \<Rightarrow> jsval \<Rightarrow> int option \<Rightarrow> json option \<Rightarrow> state \<Rightarrow> bool outcome" where
  "set_try cfg rt now key v ttl metadata s =
     (let expiry = (case ttl of Some t \<Rightarrow> JNum (now + t) | None \<Rightarrow> JNull);
          data = envelope v expiry (version cfg) metadata
      in case encode cfg rt data of
           Inl e \<Rightarrow> (Inl e, s)
         | Inr finalData \<Rightarrow>
             (case setItem rt (getKey cfg key) finalData (storage s) of
                Inl e \<Rightarrow> (Inl e, s)
              | Inr st \<Rightarrow>
                  (case notifyListeners key v (s\<lparr>storage := st\<rparr>) of
                     (Inl e, s') \<Rightarrow> (Inl e, s')
                   | (Inr _, s') \<Rightarrow> (Inr True, s'))))"

definition set_vault ::
  "vault \<Rightarrow> runtime \<Rightarrow> int \<Rightarrow> string \<Rightarrow> jsval \<Rightarrow> int option \<Rightarrow> json option \<Rightarrow> state \<Rightarrow> bool outcome" where
  "set_vault cfg rt now key v ttl metadata s =
     (case set_try cfg rt now key v ttl metadata s of
        (Inl e, s1) \<Rightarrow>
          (case handleError cfg e ''set'' key s1 of
             (Inl e', s2) \<Rightarrow> (Inl e', s2)
           | (Inr _, s2) \<Rightarrow> (Inr False, s2))
      | (Inr b, s1) \<Rightarrow> (Inr b, s1))"

definition get_try :: "vault \<Rightarrow> runtime \<Rightarrow> int \<Rightarrow> string \<Rightarrow> state \<Rightarrow> jsval outcome" where
  "get_try cfg rt now key s =
     (case getItem (storage s) (getKey cfg key) of
        None \<Rightarrow> (Inr null, s)
      | Some item \<Rightarrow>
          if item = [] then (Inr null, s)
          else
            (case decode cfg rt item of
               Inl e \<Rightarrow> (Inl e, s)
             | Inr data \<Rightarrow>
                 (case get_prop data ''expiry'' of
                    Inl e \<Rightarrow> (Inl e, s)
                  | Inr expiry \<Rightarrow>
                      if is_expired rt now expiry then
                        (case remove_vault cfg key s of
                           (Inl e, s') \<Rightarrow> (Inl e, s')
                         | (Inr _, s') \<Rightarrow> (Inr null, s'))
                      else
                        (case get_prop data ''value'' of
                           Inl e \<Rightarrow> (Inl e, s)
                         | Inr v \<Rightarrow> (Inr v, s)))))"

definition get :: "vault \<Rightarrow> runtime \<Rightarrow> int \<Rightarrow> string \<Rightarrow> state \<Rightarrow> jsval outcome" where
  "get cfg rt now key s =
     (case get_try cfg rt now key s of
        (Inl e, s1) \<Rightarrow>
          (case handleError cfg e ''get'' key s1 of
             (Inl e', s2) \<Rightarrow> (Inl e', s2)
           | (Inr _, s2) \<Rightarrow>
               (Inr null, s2\<lparr>storage := removeItem (getKey cfg key) (storage s2)\<rparr>))
      | (Inr v, s1) \<Rightarrow> (Inr v, s1))"

definition update_vault ::
  "vault \<Rightarrow> runtime \<Rightarrow> int \<Rightarrow> string \<Rightarrow> (jsval \<Rightarrow> error + jsval) \<Rightarrow> state \<Rightarrow> bool outcome" where
  "update_vault cfg rt now key updater s =
     (case get cfg rt now key s of
        (Inl e, s1) \<Rightarrow> (Inl e, s1)
      | (Inr current, s1) \<Rightarrow>
          if current = null then (Inr False, s1)
          else
            (let s2 = s1\<lparr>trace := trace s1 @ [UpdaterCall current]\<rparr>
             in case updater current of
                  Inl e \<Rightarrow> (Inl e, s2)
                | Inr updated \<Rightarrow> set_vault cfg rt now key updated None None s2))"

definition clear :: "vault \<Rightarrow> state \<Rightarrow> state" where
  "clear cfg s =
     s\<lparr>storage := foldl (\<lambda>st k. removeItem k st) (storage s) (getAllKeys cfg (storage s)),
       listeners := Map.empty\<rparr>"

definition keys :: "vault \<Rightarrow> state \<Rightarrow> string list" where
  "keys cfg s = map (drop (length (prefix cfg))) (getAllKeys cfg (storage s))"

text \<open>
  \<open>cleanupExpired\<close>: the loop over the keys found at the start of the call. An item that
  is missing or empty is passed over; one whose reading throws, or that has expired, is
  removed and counted. Nothing is reported and no subscriber is called.
\<close>

fun cleanup_loop ::
  "vault \<Rightarrow> runtime \<Rightarrow> int \<Rightarrow> string list \<Rightarrow> (string \<times> string) list \<Rightarrow> nat \<Rightarrow> nat \<times> (string \<times> string) list" where
  "cleanup_loop cfg rt now [] st count = (count, st)"
| "cleanup_loop cfg rt now (fullKey # ks) st count =
     (case getItem st fullKey of
        None \<Rightarrow> cleanup_loop cfg rt now ks st count
      | Some item \<Rightarrow>
          if item = [] then cleanup_loop cfg rt now ks st count
          else
            (case (case decode cfg rt item of
                     Inl e \<Rightarrow> Inl e
                   | Inr data \<Rightarrow> get_prop data ''expiry'') of
               Inl e \<Rightarrow> cleanup_loop cfg rt now ks (removeItem fullKey st) (count + 1)
             | Inr expiry \<Rightarrow>
                 if is_expired rt now expiry
                 then cleanup_loop cfg rt now ks (removeItem fullKey st) (count + 1)
                 else cleanup_loop cfg rt now ks st count))"

definition cleanupExpired :: "vault \<Rightarrow> runtime \<Rightarrow> int \<Rightarrow> state \<Rightarrow> nat \<times> state" where
  "cleanupExpired cfg rt now s =
     (case cleanup_loop cfg rt now (getAllKeys cfg (storage s)) (storage s) 0 of
        (count, st) \<Rightarrow> (count, s\<lparr>storage := st\<rparr>))"

text \<open>\<open>getTTL\<close> swallows every error and changes nothing; \<open>None\<close> is the source's \<open>null\<close>.\<close>

definition getTTL :: "vault \<Rightarrow> runtime \<Rightarrow> int \<Rightarrow> string \<Rightarrow> state \<Rightarrow> int option" where
  "getTTL cfg rt now key s =
     (case getItem (storage s) (getKey cfg key) of
        None \<Rightarrow> None
      | Some item \<Rightarrow>
          if item = [] then None
          else
            (case decode cfg rt item of
               Inl e \<Rightarrow> None
             | Inr data \<Rightarrow>
                 (case get_prop data ''expiry'' of
                    Inl e \<Rightarrow> None
                  | Inr expiry \<Rightarrow>
                      if expiry = null then None
                      else
                        (case to_number rt expiry of
                           None \<Rightarrow> Some 0
                         | Some n \<Rightarrow> Some (if n - now > 0 then n - now else 0)))))"

text \<open>
  \<open>Object.entries\<close> on what \<open>JSON.parse\<close> returned: it throws on \<open>null\<close>, is empty on a
  boolean or a number, and pairs each index with its element on a string or an array.
\<close>

fun dec :: "nat \<Rightarrow> string" where
  "dec n = (if n < 10 then [char_of (48 + n)] else dec (n div 10) @ [char_of (48 + n mod 10)])"

declare dec.simps [simp del]

fun Object_entries :: "json \<Rightarrow> error + (string \<times> json) list" where
  "Object_entries JNull = Inl TypeError"
| "Object_entries (JBool b) = Inr []"
| "Object_entries (JNum n) = Inr []"
| "Object_entries (JStr cs) = Inr (zip (map dec [0..<length cs]) (map (\<lambda>c. JStr [c]) cs))"
| "Object_entries (JArr js) = Inr (zip (map dec [0..<length js]) js)"
| "Object_entries (JObj kvs) = Inr kvs"

fun import_loop :: "vault \<Rightarrow> runtime \<Rightarrow> int \<Rightarrow> (string \<times> json) list \<Rightarrow> state \<Rightarrow> unit outcome" where
  "import_loop cfg rt now [] s = (Inr (), s)"
| "import_loop cfg rt now ((k, v) # kvs) s =
     (case set_vault cfg rt now k (Json v) None None s of
        (Inl e, s') \<Rightarrow> (Inl e, s')
      | (Inr _, s') \<Rightarrow> import_loop cfg rt now kvs s')"

definition import_try :: "vault \<Rightarrow> runtime \<Rightarrow> int \<Rightarrow> string \<Rightarrow> bool \<Rightarrow> state \<Rightarrow> bool outcome" where
  "import_try cfg rt now jsonData merge s =
     (case JSON_parse rt jsonData of
        Inl e \<Rightarrow> (Inl e, s)
      | Inr data \<Rightarrow>
          (let s1 = (if \<not> merge then clear cfg s else s)
           in case Object_entries data of
                Inl e \<Rightarrow> (Inl e, s1)
              | Inr kvs \<Rightarrow>
                  (case import_loop cfg rt now kvs s1 of
                     (Inl e, s2) \<Rightarrow> (Inl e, s2)
                   | (Inr _, s2) \<Rightarrow> (Inr True, s2))))"

definition import_vault :: "vault \<Rightarrow> runtime \<Rightarrow> int \<Rightarrow> string \<Rightarrow> bool \<Rightarrow> state \<Rightarrow> bool outcome" where
  "import_vault cfg rt now jsonData merge s =
     (case import_try cfg rt now jsonData merge s of
        (Inl e, s1) \<Rightarrow>
          (case handleError cfg e ''import'' ''batch'' s1 of
             (Inl e', s2) \<Rightarrow> (Inl e', s2)
           | (Inr _, s2) \<Rightarrow> (Inr False, s2))
      | (Inr b, s1) \<Rightarrow> (Inr b, s1))"

section \<open>A reference runtime\<close>

text \<open>
  To run the operations on concrete stores, the parameters of the runtime are given
  here by a small JSON codec: a printer of compact JSON text and a recursive-descent
  parser of it (no white space; a quote and a backslash are the only escapes; the keys
  of an object are kept in the order of the text), a store that refuses a text longer
  than its quota, and a numeric coercion that reads a string of decimal digits and takes
  every other text, array or object for \<open>NaN\<close>. The properties below are proved for
  every runtime; this one serves to evaluate them on examples.
\<close>

fun escape :: "string \<Rightarrow> string" where
  "escape [] = []"
| "escape (c # cs) =
     (if c = CHR 0x22 \<or> c = CHR 0x5C then CHR 0x5C # c # escape cs else c # escape cs)"

definition quote :: "string \<Rightarrow> string" where
  "quote cs = CHR 0x22 # escape cs @ [CHR 0x22]"

fun commas :: "string list \<Rightarrow> string" where
  "commas [] = []"
| "commas [x] = x"
| "commas (x # y # ys) = x @ '','' @ commas (y # ys)"

definition show_int :: "int \<Rightarrow> string" where
  "show_int n = (if n < 0 then CHR ''-'' # dec (nat (- n)) else dec (nat n))"

fun show_json :: "json \<Rightarrow> string" where
  "show_json JNull = ''null''"
| "show_json (JBool b) = (if b then ''true'' else ''false'')"
| "show_json (JNum n) = show_int n"
| "show_json (JStr cs) = quote cs"
| "show_json (JArr js) = ''['' @ commas (map show_json js) @ '']''"
| "show_json (JObj kvs) =
     ''{'' @ commas (map (\<lambda>kv. quote (fst kv) @ '':'' @ show_json (snd kv)) kvs) @ ''}''"

definition is_digit :: "char \<Rightarrow> bool" where
  "is_digit c = (48 \<le> (of_char c :: nat) \<and> (of_char c :: nat) \<le> 57)"

fun parse_digits :: "string \<Rightarrow> nat \<Rightarrow> nat \<times> string" where
  "parse_digits [] acc = (acc, [])"
| "parse_digits (c # cs) acc =
     (if is_digit c then parse_digits cs (10 * acc + (of_char c - 48)) else (acc, c # cs))"

text \<open>The characters of a string literal, after its opening quote, up to the closing one.\<close>

fun parse_chars :: "string \<Rightarrow> (string \<times> string) option" where
  "parse_chars [] = None"
| "parse_chars [c] = (if c = CHR 0x22 then Some ([], []) else None)"
| "parse_chars (c # d # cs) =
     (if c = CHR 0x22 then Some ([], d # cs)
      else if c = CHR 0x5C then
        (if d = CHR 0x22 \<or> d = CHR 0x5C
         then map_option (\<lambda>(str, r). (d # str, r)) (parse_chars cs)
         else None)
      else map_option (\<lambda>(str, r). (c # str, r)) (parse_chars (d # cs)))"

fun parse_value :: "nat \<Rightarrow> string \<Rightarrow> (json \<times> string) option"
  and parse_elems :: "nat \<Rightarrow> string \<Rightarrow> (json list \<times> string) option"
  and parse_members :: "nat \<Rightarrow> string \<Rightarrow> ((string \<times> json) list \<times> string) option"
where
  "parse_value 0 s = None"
| "parse_value (Suc n) s =
     (case s of
        [] \<Rightarrow> None
      | c # cs \<Rightarrow>
          if take 4 s = ''null'' then Some (JNull, drop 4 s)
          else if take 4 s = ''true'' then Some (JBool True, drop 4 s)
          else if take 5 s = ''false'' then Some (JBool False, drop 5 s)
          else if c = CHR 0x22 then map_option (\<lambda>(str, r). (JStr str, r)) (parse_chars cs)
          else if c = CHR ''-'' \<and> cs \<noteq> [] \<and> is_digit (hd cs) then
            (case parse_digits cs 0 of (m, r) \<Rightarrow> Some (JNum (- int m), r))
          else if is_digit c then
            (case parse_digits s 0 of (m, r) \<Rightarrow> Some (JNum (int m), r))
          else if c = CHR ''['' then
            (if take 1 cs = '']'' then Some (JArr [], drop 1 cs)
             else map_option (\<lambda>(js, r). (JArr js, r)) (parse_elems n cs))
          else if c = CHR ''{'' then
            (if take 1 cs = ''}'' then Some (JObj [], drop 1 cs)
             else map_option (\<lambda>(kvs, r). (JObj kvs, r)) (parse_members n cs))
          else None)"
| "parse_elems 0 s = None"
| "parse_elems (Suc n) s =
     (case parse_value n s of
        None \<Rightarrow> None
      | Some (j, r) \<Rightarrow>
          if take 1 r = '','' then map_option (\<lambda>(js, r'). (j # js, r')) (parse_elems n (drop 1 r))
          else if take 1 r = '']'' then Some ([j], drop 1 r)
          else None)"
| "parse_members 0 s = None"
| "parse_members (Suc n) s =
     (if take 1 s \<noteq> [CHR 0x22] then None
      else
        (case parse_chars (drop 1 s) of
           None \<Rightarrow> None
         | Some (k, r) \<Rightarrow>
             if take 1 r \<noteq> '':'' then None
             else
               (case parse_value n (drop 1 r) of
                  None \<Rightarrow> None
                | Some (j, r') \<Rightarrow>
                    if take 1 r' = '','' then
                      map_option (\<lambda>(kvs, r''). ((k, j) # kvs, r'')) (parse_members n (drop 1 r'))
                    else if take 1 r' = ''}'' then Some ([(k, j)], drop 1 r')
                    else None)))"

definition parse_json :: "string \<Rightarrow> error + json" where
  "parse_json s =
     (case parse_value (2 * length s + 2) s of
        Some (j, []) \<Rightarrow> Inr j
      | _ \<Rightarrow> Inl SyntaxError)"

definition digits_to_number :: "json \<Rightarrow> int option" where
  "digits_to_number j =
     (case j of
        JStr cs \<Rightarrow> if list_all is_digit cs then Some (int (fst (parse_digits cs 0))) else None
      | _ \<Rightarrow> None)"

definition ref_runtime :: "nat \<Rightarrow> runtime" where
  "ref_runtime quota =
     \<lparr>JSON_stringify = (\<lambda>j. Inr (show_json j)),
      JSON_parse = parse_json,
      ToNumber = digits_to_number,
      setItem_fault = (\<lambda>st k v. if quota < length v then Some QuotaExceededError else None)\<rparr>"

text \<open>The vault that \<open>new SafeVault(storage)\<close> makes: prefix \<open>sv_\<close>, version \<open>1.0.0\<close>, no encryption, no hook.\<close>

definition default_vault :: vault where
  "default_vault = \<lparr>prefix = ''sv_'', version = ''1.0.0'', encryption = None, onError = None\<rparr>"

section \<open>Notions used to state the properties\<close>

text \<open>
  The error hook returns on a report (there is no hook, or it does not throw), and the
  event that the report leaves in the trace: a call of the hook, or a line on the console
  when no hook is configured.
\<close>

definition hook_returns :: "vault \<Rightarrow> error \<Rightarrow> string \<Rightarrow> string \<Rightarrow> bool" where
  "hook_returns cfg e operation key =
     (case onError cfg of None \<Rightarrow> True | Some h \<Rightarrow> h e operation key = None)"

definition reported :: "vault \<Rightarrow> error \<Rightarrow> string \<Rightarrow> string \<Rightarrow> event" where
  "reported cfg e operation key =
     (case onError cfg of
        None \<Rightarrow> ConsoleError e operation key
      | Some h \<Rightarrow> OnErrorCall e operation key)"

text \<open>
  The subscribers of a key; those of them that a notification reaches (all up to and
  including the first that throws); the error of the first that throws, if any; the
  events their calls leave in the trace.
\<close>

definition subscribers :: "state \<Rightarrow> string \<Rightarrow> callback list" where
  "subscribers s key = (case listeners s key of None \<Rightarrow> [] | Some cbs \<Rightarrow> cbs)"

fun called :: "callback list \<Rightarrow> jsval \<Rightarrow> callback list" where
  "called [] v = []"
| "called (c # cs) v = c # (case cb_run c v of Some e \<Rightarrow> [] | None \<Rightarrow> called cs v)"

fun first_throw :: "callback list \<Rightarrow> jsval \<Rightarrow> error option" where
  "first_throw [] v = None"
| "first_throw (c # cs) v = (case cb_run c v of Some e \<Rightarrow> Some e | None \<Rightarrow> first_throw cs v)"

definition notices :: "callback list \<Rightarrow> jsval \<Rightarrow> event list" where
  "notices cbs v = map (\<lambda>c. ListenerCall (cb_id c) v) cbs"

fun is_listener_call :: "event \<Rightarrow> bool" where
  "is_listener_call (ListenerCall i v) = True"
| "is_listener_call _ = False"

fun is_updater_call :: "event \<Rightarrow> bool" where
  "is_updater_call (UpdaterCall v) = True"
| "is_updater_call _ = False"

text \<open>Identity encode/decode: no encryption pair, or one whose two functions return their argument.\<close>

definition identity_cipher :: "vault \<Rightarrow> bool" where
  "identity_cipher cfg =
     (case encryption cfg of None \<Rightarrow> True | Some c \<Rightarrow> encrypt c = Inr \<and> decrypt c = Inr)"

text \<open>
  A stored text that the cleanup pass removes: it is not empty, and reading it as a
  record throws (in the decryption, in the parse, or in the read of the expiry of a
  parsed \<open>null\<close>) or gives an expiry that has passed. A key of the store is condemned
  when it is one of the vault's and holds such a text.
\<close>

definition doomed :: "vault \<Rightarrow> runtime \<Rightarrow> int \<Rightarrow> string \<Rightarrow> bool" where
  "doomed cfg rt now item =
     (item \<noteq> [] \<and>
      (case decode cfg rt item of
         Inl e \<Rightarrow> True
       | Inr data \<Rightarrow>
           (case get_prop data ''expiry'' of
              Inl e \<Rightarrow> True
            | Inr expiry \<Rightarrow> is_expired rt now expiry)))"

definition flagged :: "vault \<Rightarrow> runtime \<Rightarrow> int \<Rightarrow> (string \<times> string) list \<Rightarrow> string \<Rightarrow> bool" where
  "flagged cfg rt now st k =
     (case getItem st k of None \<Rightarrow> False | Some item \<Rightarrow> doomed cfg rt now item)"

definition condemned :: "vault \<Rightarrow> runtime \<Rightarrow> int \<Rightarrow> (string \<times> string) list \<Rightarrow> string \<Rightarrow> bool" where
  "condemned cfg rt now st k =
     (k \<noteq> [] \<and> startsWith k (prefix cfg) \<and>
      (case getItem st k of None \<Rightarrow> False | Some item \<Rightarrow> doomed cfg rt now item))"

text \<open>
  The entries of the store that belong to a vault (the pairs whose key \<open>getAllKeys\<close>
  lists), and the part of the store that its prefix does not cover.
\<close>

definition entries_of :: "vault \<Rightarrow> (string \<times> string) list \<Rightarrow> (string \<times> string) list" where
  "entries_of cfg st = filter (\<lambda>p. fst p \<noteq> [] \<and> startsWith (fst p) (prefix cfg)) st"

definition foreign :: "vault \<Rightarrow> (string \<times> string) list \<Rightarrow> (string \<times> string) list" where
  "foreign cfg st = filter (\<lambda>p. \<not> startsWith (fst p) (prefix cfg)) st"

section \<open>Concrete stores and callers\<close>

text \<open>
  A state with a given store and no subscriber, one with the subscribers of one key, a
  hook and a subscriber that return, a subscriber that throws, and the text that the
  default vault writes on the reference runtime for a value and an expiry.
\<close>

definition stored :: "(string \<times> string) list \<Rightarrow> state" where
  "stored st = \<lparr>storage = st, listeners = Map.empty, trace = []\<rparr>"

definition subscribed :: "(string \<times> string) list \<Rightarrow> string \<Rightarrow> callback list \<Rightarrow> state" where
  "subscribed st key cbs = \<lparr>storage = st, listeners = [key \<mapsto> cbs], trace = []\<rparr>"

definition quiet_hook :: hook where
  "quiet_hook e operation key = None"

definition quiet_callback :: callback where
  "quiet_callback = \<lparr>cb_id = 1, cb_run = (\<lambda>v. None)\<rparr>"

definition throwing_callback :: callback where
  "throwing_callback = \<lparr>cb_id = 2, cb_run = (\<lambda>v. Some (Thrown ''subscriber''))\<rparr>"

definition ref_text :: "jsval \<Rightarrow> json \<Rightarrow> string" where
  "ref_text v expiry = show_json (envelope v expiry ''1.0.0'' None)"

section \<open>Facts about the private helpers\<close>

lemma handleError_returns:
  "hook_returns cfg e operation key \<Longrightarrow>
   handleError cfg e operation key s =
     (Inr (), s\<lparr>trace := trace s @ [reported cfg e operation key]\<rparr>)"
  by (simp add: hook_returns_def handleError_def reported_def split: option.splits)

lemma handleError_state:
  "handleError cfg e operation key s = (r, s') \<Longrightarrow>
     storage s' = storage s \<and> listeners s' = listeners s \<and>
     trace s' = trace s @ [reported cfg e operation key]"
  by (auto simp: handleError_def reported_def Let_def split: option.splits)

lemma run_callbacks_state:
  "run_callbacks cbs v s =
     ((case first_throw cbs v of None \<Rightarrow> Inr () | Some e \<Rightarrow> Inl e),
      s\<lparr>trace := trace s @ notices (called cbs v) v\<rparr>)"
  by (induction cbs arbitrary: s) (auto simp: notices_def Let_def split: option.splits)

lemma notifyListeners_state:
  "notifyListeners key v s =
     ((case first_throw (subscribers s key) v of None \<Rightarrow> Inr () | Some e \<Rightarrow> Inl e),
      s\<lparr>trace := trace s @ notices (called (subscribers s key) v) v\<rparr>)"
  by (simp add: notifyListeners_def subscribers_def run_callbacks_state notices_def split: option.splits)

lemma called_all: "first_throw cbs v = None \<Longrightarrow> called cbs v = cbs"
  by (induction cbs) (auto split: option.splits)

lemma listener_calls_notices [simp]: "filter is_listener_call (notices cbs v) = notices cbs v"
  by (induction cbs) (simp_all add: notices_def)

lemma updater_calls_notices [simp]: "filter is_updater_call (notices cbs v) = []"
  by (induction cbs) (simp_all add: notices_def)

lemma reported_kind [simp]:
  "\<not> is_listener_call (reported cfg e operation key)"
  "\<not> is_updater_call (reported cfg e operation key)"
  by (simp_all add: reported_def split: option.splits)

lemma subscribers_simps [simp]:
  "subscribers (s\<lparr>storage := st\<rparr>) key = subscribers s key"
  "subscribers (s\<lparr>trace := tr\<rparr>) key = subscribers s key"
  by (simp_all add: subscribers_def)


lemma subscribers_clear [simp]: "subscribers (clear cfg s) k = []"
  by (simp add: subscribers_def clear_def)

section \<open>Facts about the store and the stored record\<close>

lemma getItem_removeItem [simp]: "getItem (removeItem k st) k = None"
  by (simp add: getItem_def removeItem_def delete_conv')

lemma getItem_update [simp]: "getItem (AList.update k v st) k = Some v"
  by (simp add: getItem_def update_conv')

lemma removeItem_idem [simp]: "removeItem k (removeItem k st) = removeItem k st"
  by (simp add: removeItem_def delete_idem)

lemma removeItem_filter: "removeItem k st = filter (\<lambda>p. fst p \<noteq> k) st"
  by (auto simp: removeItem_def AList.delete_eq intro: filter_cong)

lemma get_prop_envelope [simp]:
  "get_prop (envelope v ex ver md) ''expiry'' = Inr (Json ex)"
  "get_prop (envelope v ex ver md) ''value'' = Inr v"
  by (simp_all add: envelope_def split: jsval.splits option.splits)

lemma is_expired_JNum [simp]: "is_expired rt t (Json (JNum n)) = (n < t)"
  by (simp add: is_expired_def)

lemma is_expired_null [simp]: "\<not> is_expired rt t null"
  by (simp add: is_expired_def)

lemma identity_encode: "identity_cipher cfg \<Longrightarrow> encode cfg rt data = JSON_stringify rt data"
  by (auto simp: identity_cipher_def encode_def split: option.splits sum.splits)

lemma identity_decode: "identity_cipher cfg \<Longrightarrow> decode cfg rt item = JSON_parse rt item"
  by (auto simp: identity_cipher_def decode_def split: option.splits sum.splits)

section \<open>What set, get and remove do\<close>

lemma set_try_written:
  assumes "encode cfg rt (envelope v (case ttl of Some t \<Rightarrow> JNum (now + t) | None \<Rightarrow> JNull) (version cfg) md) = Inr text"
    and "setItem_fault rt (storage s) (getKey cfg key) text = None"
  shows "set_try cfg rt now key v ttl md s =
           ((case first_throw (subscribers s key) v of None \<Rightarrow> Inr True | Some e \<Rightarrow> Inl e),
            s\<lparr>storage := AList.update (getKey cfg key) text (storage s),
              trace := trace s @ notices (called (subscribers s key) v) v\<rparr>)"
  using assms
  by (simp add: set_try_def setItem_def notifyListeners_state split: option.splits)

lemma set_vault_written:
  assumes "encode cfg rt (envelope v (case ttl of Some t \<Rightarrow> JNum (now + t) | None \<Rightarrow> JNull) (version cfg) md) = Inr text"
    and "setItem_fault rt (storage s) (getKey cfg key) text = None"
    and "set_vault cfg rt now key v ttl md s = (r, s')"
  shows "storage s' = AList.update (getKey cfg key) text (storage s)"
    and "listeners s' = listeners s"
    and "filter is_updater_call (trace s') = filter is_updater_call (trace s)"
    and "first_throw (subscribers s key) v = None \<Longrightarrow>
           r = Inr True \<and> trace s' = trace s @ notices (subscribers s key) v"
proof -
  note w = set_try_written [OF assms(1,2)]
  show "storage s' = AList.update (getKey cfg key) text (storage s)"
    using assms(3) unfolding set_vault_def w
    by (auto split: option.splits prod.splits sum.splits dest!: handleError_state)
  show "listeners s' = listeners s"
    using assms(3) unfolding set_vault_def w
    by (auto split: option.splits prod.splits sum.splits dest!: handleError_state)
  show "filter is_updater_call (trace s') = filter is_updater_call (trace s)"
    using assms(3) unfolding set_vault_def w
    by (auto split: option.splits prod.splits sum.splits dest!: handleError_state)
  show "first_throw (subscribers s key) v = None \<Longrightarrow>
           r = Inr True \<and> trace s' = trace s @ notices (subscribers s key) v"
    using assms(3) unfolding set_vault_def w
    by (auto simp: called_all)
qed


lemma get_try_corrupt:
  "getItem (storage s) (getKey cfg key) = Some item \<Longrightarrow> item \<noteq> [] \<Longrightarrow>
   decode cfg rt item = Inl e \<Longrightarrow> get_try cfg rt now key s = (Inl e, s)"
  by (simp add: get_try_def)

lemma get_try_fresh:
  assumes "getItem (storage s) (getKey cfg key) = Some item" and "item \<noteq> []"
    and "decode cfg rt item = Inr data"
    and "get_prop data ''expiry'' = Inr ex" and "\<not> is_expired rt now ex"
    and "get_prop data ''value'' = Inr v"
  shows "get cfg rt now key s = (Inr v, s)"
  using assms by (simp add: get_def get_try_def)

lemma remove_vault_state:
  "remove_vault cfg key s =
     ((case first_throw (subscribers s key) null of None \<Rightarrow> Inr () | Some e \<Rightarrow> Inl e),
      s\<lparr>storage := removeItem (getKey cfg key) (storage s),
        trace := trace s @ notices (called (subscribers s key) null) null\<rparr>)"
  by (simp add: remove_vault_def notifyListeners_state)

lemma get_stale:
  assumes "getItem (storage s) (getKey cfg key) = Some item" and "item \<noteq> []"
    and "decode cfg rt item = Inr data"
    and "get_prop data ''expiry'' = Inr ex" and "is_expired rt now ex"
    and "get cfg rt now key s = (r, s')"
  shows "storage s' = removeItem (getKey cfg key) (storage s)"
    and "listeners s' = listeners s"
    and "filter is_listener_call (trace s') =
           filter is_listener_call (trace s) @ notices (called (subscribers s key) null) null"
    and "first_throw (subscribers s key) null = None \<Longrightarrow>
           r = Inr null \<and> s' = snd (remove_vault cfg key s) \<and>
           trace s' = trace s @ notices (subscribers s key) null"
    and "first_throw (subscribers s key) null = Some e \<Longrightarrow> hook_returns cfg e ''get'' key \<Longrightarrow>
           r = Inr null"
proof -
  have t: "get_try cfg rt now key s =
     ((case first_throw (subscribers s key) null of None \<Rightarrow> Inr null | Some e \<Rightarrow> Inl e),
      s\<lparr>storage := removeItem (getKey cfg key) (storage s),
        trace := trace s @ notices (called (subscribers s key) null) null\<rparr>)"
    using assms(1-5) by (simp add: get_try_def remove_vault_state split: option.splits)
  show "storage s' = removeItem (getKey cfg key) (storage s)"
    using assms(6) unfolding get_def t
    by (auto split: option.splits prod.splits sum.splits dest!: handleError_state)
  show "listeners s' = listeners s"
    using assms(6) unfolding get_def t
    by (auto split: option.splits prod.splits sum.splits dest!: handleError_state)
  show "filter is_listener_call (trace s') =
           filter is_listener_call (trace s) @ notices (called (subscribers s key) null) null"
    using assms(6) unfolding get_def t
    by (auto split: option.splits prod.splits sum.splits dest!: handleError_state)
  show "first_throw (subscribers s key) null = None \<Longrightarrow>
           r = Inr null \<and> s' = snd (remove_vault cfg key s) \<and>
           trace s' = trace s @ notices (subscribers s key) null"
    using assms(6) unfolding get_def t remove_vault_state by (auto simp: called_all)
  show "first_throw (subscribers s key) null = Some e \<Longrightarrow> hook_returns cfg e ''get'' key \<Longrightarrow>
           r = Inr null"
    using assms(6) unfolding get_def t by (auto simp: handleError_returns)
qed

section \<open>The loop of the cleanup pass\<close>

lemma cleanup_loop_step:
  "cleanup_loop cfg rt now (k # ks) st count =
     (if flagged cfg rt now st k
      then cleanup_loop cfg rt now ks (removeItem k st) (count + 1)
      else cleanup_loop cfg rt now ks st count)"
  by (simp add: flagged_def doomed_def split: option.splits sum.splits)

lemma flagged_removeItem:
  "flagged cfg rt now (removeItem k st) k' = (k' \<noteq> k \<and> flagged cfg rt now st k')"
  by (simp add: flagged_def getItem_def removeItem_def delete_conv')

lemma cleanup_loop_result:
  "cleanup_loop cfg rt now ks st count =
     (count + card {k \<in> set ks. flagged cfg rt now st k},
      filter (\<lambda>p. \<not> (fst p \<in> set ks \<and> flagged cfg rt now st (fst p))) st)"
proof (induction ks arbitrary: st count)
  case Nil
  then show ?case by simp
next
  case (Cons k ks)
  show ?case
  proof (cases "flagged cfg rt now st k")
    case False
    then have "{k' \<in> set (k # ks). flagged cfg rt now st k'} = {k' \<in> set ks. flagged cfg rt now st k'}"
      by auto
    moreover have "filter (\<lambda>p. \<not> (fst p \<in> set (k # ks) \<and> flagged cfg rt now st (fst p))) st =
                   filter (\<lambda>p. \<not> (fst p \<in> set ks \<and> flagged cfg rt now st (fst p))) st"
      using False by (intro filter_cong) auto
    ultimately show ?thesis
      using False by (simp only: cleanup_loop_step Cons.IH if_False)
  next
    case True
    let ?S = "{k' \<in> set (k # ks). flagged cfg rt now st k'}"
    have fin: "finite ?S" by simp
    have mem: "k \<in> ?S" using True by simp
    have "{k' \<in> set ks. flagged cfg rt now (removeItem k st) k'} = ?S - {k}"
      by (auto simp: flagged_removeItem)
    then have "card {k' \<in> set ks. flagged cfg rt now (removeItem k st) k'} = card (?S - {k})"
      by simp
    also have "\<dots> + 1 = card ?S"
      using fin mem by (metis Suc_eq_plus1 card_Suc_Diff1)
    finally have card: "card {k' \<in> set ks. flagged cfg rt now (removeItem k st) k'} + 1 = card ?S" .
    have flt: "filter (\<lambda>p. \<not> (fst p \<in> set ks \<and> flagged cfg rt now (removeItem k st) (fst p)))
                 (removeItem k st) =
               filter (\<lambda>p. \<not> (fst p \<in> set (k # ks) \<and> flagged cfg rt now st (fst p))) st"
      using True unfolding removeItem_filter [of k st] filter_filter
      by (intro filter_cong) (auto simp: flagged_removeItem removeItem_filter [symmetric])
    show ?thesis
      using True card flt by (simp only: cleanup_loop_step Cons.IH if_True) simp
  qed
qed

lemma set_getAllKeys:
  "set (getAllKeys cfg st) = {k \<in> fst ` set st. k \<noteq> [] \<and> startsWith k (prefix cfg)}"
  by (auto simp: getAllKeys_def)

lemma flagged_in_store: "flagged cfg rt now st k \<Longrightarrow> k \<in> fst ` set st"
  by (auto simp: flagged_def getItem_def split: option.splits dest: map_of_SomeD intro: rev_image_eqI)

lemma condemned_flagged:
  "condemned cfg rt now st k =
     (k \<in> set (getAllKeys cfg st) \<and> flagged cfg rt now st k)"
  using flagged_in_store [of cfg rt now st k]
  by (auto simp: condemned_def flagged_def set_getAllKeys)

lemma startsWith_split: "startsWith k p \<Longrightarrow> k = p @ drop (length p) k"
  by (metis append_take_drop_id startsWith_def)

section \<open>Prefixes: what an operation leaves alone\<close>

lemma startsWith_getKey [simp]: "startsWith (getKey cfg key) (prefix cfg)"
  by (simp add: startsWith_def getKey_def)

lemma startsWith_both:
  assumes "startsWith k p" and "startsWith k q"
  shows "startsWith p q \<or> startsWith q p"
proof (cases "length q \<le> length p")
  case True
  have "take (length q) p = take (length q) (take (length p) k)"
    using assms(1) by (simp add: startsWith_def)
  also have "\<dots> = take (length q) k"
    using True by (simp add: min_def)
  finally show ?thesis using assms(2) by (simp add: startsWith_def)
next
  case False
  have "take (length p) q = take (length p) (take (length q) k)"
    using assms(2) by (simp add: startsWith_def)
  also have "\<dots> = take (length p) k"
    using False by (simp add: min_def)
  finally show ?thesis using assms(1) by (simp add: startsWith_def)
qed

lemma foreign_removeItem:
  "startsWith k (prefix cfg) \<Longrightarrow> foreign cfg (removeItem k st) = foreign cfg st"
  unfolding foreign_def removeItem_filter filter_filter
  by (intro filter_cong) auto

lemma foreign_update:
  "startsWith k (prefix cfg) \<Longrightarrow> foreign cfg (AList.update k v st) = foreign cfg st"
  by (induction st) (auto simp: foreign_def)

lemma entries_of_foreign:
  assumes "\<not> startsWith (prefix a) (prefix b)" and "\<not> startsWith (prefix b) (prefix a)"
  shows "entries_of b (foreign a st) = entries_of b st"
  unfolding entries_of_def foreign_def filter_filter
  using assms startsWith_both by (intro filter_cong) auto

lemma foreign_set_vault:
  "foreign cfg (storage (snd (set_vault cfg rt now key v ttl md s))) = foreign cfg (storage s)"
proof -
  obtain r1 s1 where t: "set_try cfg rt now key v ttl md s = (r1, s1)"
    by (cases "set_try cfg rt now key v ttl md s")
  have "foreign cfg (storage s1) = foreign cfg (storage s)"
    using t
    by (auto simp: set_try_def setItem_def notifyListeners_state foreign_update Let_def
             split: sum.splits option.splits)
  moreover have "storage (snd (set_vault cfg rt now key v ttl md s)) = storage s1"
  proof (cases r1)
    case (Inl e)
    obtain r2 s2 where h: "handleError cfg e ''set'' key s1 = (r2, s2)"
      by (cases "handleError cfg e ''set'' key s1")
    show ?thesis
      using t Inl h handleError_state [OF h] by (cases r2) (simp_all add: set_vault_def)
  next
    case (Inr b)
    then show ?thesis using t by (simp add: set_vault_def)
  qed
  ultimately show ?thesis by simp
qed

lemma foreign_remove_vault:
  "foreign cfg (storage (snd (remove_vault cfg key s))) = foreign cfg (storage s)"
  by (simp add: remove_vault_state foreign_removeItem)

lemma foreign_get:
  "foreign cfg (storage (snd (get cfg rt now key s))) = foreign cfg (storage s)"
proof -
  obtain r1 s1 where t: "get_try cfg rt now key s = (r1, s1)"
    by (cases "get_try cfg rt now key s")
  have f1: "foreign cfg (storage s1) = foreign cfg (storage s)"
    using t
    by (auto simp: get_try_def remove_vault_state foreign_removeItem
             split: sum.splits option.splits if_splits)
  have "foreign cfg (storage (snd (get cfg rt now key s))) = foreign cfg (storage s1)"
  proof (cases r1)
    case (Inl e)
    obtain r2 s2 where h: "handleError cfg e ''get'' key s1 = (r2, s2)"
      by (cases "handleError cfg e ''get'' key s1")
    show ?thesis
      using t Inl h handleError_state [OF h]
      by (cases r2) (simp_all add: get_def foreign_removeItem)
  next
    case (Inr b)
    then show ?thesis using t by (simp add: get_def)
  qed
  with f1 show ?thesis by simp
qed

lemma foreign_update_vault:
  "foreign cfg (storage (snd (update_vault cfg rt now key f s))) = foreign cfg (storage s)"
proof -
  obtain r1 s1 where g: "get cfg rt now key s = (r1, s1)"
    by (cases "get cfg rt now key s")
  have f1: "foreign cfg (storage s1) = foreign cfg (storage s)"
    using foreign_get [of cfg rt now key s] g by simp
  show ?thesis
  proof (cases r1)
    case (Inl e)
    then show ?thesis using g f1 by (simp add: update_vault_def)
  next
    case (Inr current)
    show ?thesis
    proof (cases "current = null")
      case True
      then show ?thesis using g Inr f1 by (simp add: update_vault_def)
    next
      case False
      show ?thesis
      proof (cases "f current")
        case (Inl e)
        then show ?thesis using g Inr False f1 by (simp add: update_vault_def)
      next
        case (Inr updated)
        have "foreign cfg (storage (snd (set_vault cfg rt now key updated None None
                (s1\<lparr>trace := trace s1 @ [UpdaterCall current]\<rparr>)))) = foreign cfg (storage s1)"
          by (simp add: foreign_set_vault)
        then show ?thesis
          using g \<open>r1 = Inr current\<close> False Inr f1 by (simp add: update_vault_def)
      qed
    qed
  qed
qed

lemma foreign_foldl_removeItem:
  "\<forall>k \<in> set ks. startsWith k (prefix cfg) \<Longrightarrow>
     foreign cfg (foldl (\<lambda>st k. removeItem k st) st ks) = foreign cfg st"
  by (induction ks arbitrary: st) (simp_all add: foreign_removeItem)

lemma foreign_clear: "foreign cfg (storage (clear cfg s)) = foreign cfg (storage s)"
  by (simp add: clear_def foreign_foldl_removeItem set_getAllKeys)

lemma foreign_cleanupExpired:
  "foreign cfg (storage (snd (cleanupExpired cfg rt now s))) = foreign cfg (storage s)"
  unfolding foreign_def
  by (simp add: cleanupExpired_def cleanup_loop_result set_getAllKeys)
     (intro filter_cong, auto)

lemma foreign_import_loop:
  "foreign cfg (storage (snd (import_loop cfg rt now kvs s))) = foreign cfg (storage s)"
proof (induction kvs arbitrary: s)
  case Nil
  then show ?case by simp
next
  case (Cons kv kvs)
  obtain k v where kv: "kv = (k, v)" by (cases kv)
  obtain r1 s1 where st: "set_vault cfg rt now k (Json v) None None s = (r1, s1)"
    by (cases "set_vault cfg rt now k (Json v) None None s")
  have f1: "foreign cfg (storage s1) = foreign cfg (storage s)"
    using foreign_set_vault [of cfg rt now k "Json v" None None s] st by simp
  show ?case
    using kv st f1 Cons.IH [of s1] by (cases r1) simp_all
qed

lemma foreign_import_vault:
  "foreign cfg (storage (snd (import_vault cfg rt now text merge s))) = foreign cfg (storage s)"
proof -
  obtain r1 s1 where t: "import_try cfg rt now text merge s = (r1, s1)"
    by (cases "import_try cfg rt now text merge s")
  have f1: "foreign cfg (storage s1) = foreign cfg (storage s)"
  proof (cases "JSON_parse rt text")
    case (Inl e)
    then show ?thesis using t by (simp add: import_try_def)
  next
    case (Inr data)
    let ?s0 = "if \<not> merge then clear cfg s else s"
    have f0: "foreign cfg (storage ?s0) = foreign cfg (storage s)"
      by (simp add: foreign_clear)
    show ?thesis
    proof (cases "Object_entries data")
      case (Inl e)
      then show ?thesis using t \<open>JSON_parse rt text = Inr data\<close> f0
        by (auto simp: import_try_def)
    next
      case (Inr kvs)
      obtain r2 s2 where l: "import_loop cfg rt now kvs ?s0 = (r2, s2)"
        by (cases "import_loop cfg rt now kvs ?s0")
      have "foreign cfg (storage s2) = foreign cfg (storage ?s0)"
        using foreign_import_loop [of cfg rt now kvs ?s0] l by simp
      moreover have "s1 = s2"
        using t \<open>JSON_parse rt text = Inr data\<close> Inr l
        by (cases r2) (auto simp: import_try_def Let_def)
      ultimately show ?thesis using f0 by simp
    qed
  qed
  have "storage (snd (import_vault cfg rt now text merge s)) = storage s1"
  proof (cases r1)
    case (Inl e)
    obtain r2 s2 where h: "handleError cfg e ''import'' ''batch'' s1 = (r2, s2)"
      by (cases "handleError cfg e ''import'' ''batch'' s1")
    show ?thesis
      using t Inl h handleError_state [OF h] by (cases r2) (simp_all add: import_vault_def)
  next
    case (Inr b)
    then show ?thesis using t by (simp add: import_vault_def)
  qed
  with f1 show ?thesis by simp
qed

section \<open>The loop of import\<close>




section \<open>The reference runtime on the default vault\<close>

lemma ref_encode:
  "encode default_vault (ref_runtime q) (envelope v ex (version default_vault) None) = Inr (ref_text v ex)"
  by (simp add: encode_def default_vault_def ref_runtime_def ref_text_def)


lemma ref_getKey [simp]: "getKey default_vault key = ''sv_'' @ key"
  "getKey (default_vault\<lparr>onError := h\<rparr>) key = ''sv_'' @ key"
  by (simp_all add: getKey_def default_vault_def)

lemma ref_decode:
  "decode default_vault (ref_runtime q) item = parse_json item"
  "decode (default_vault\<lparr>onError := h\<rparr>) (ref_runtime q) item = parse_json item"
  by (simp_all add: decode_def default_vault_def ref_runtime_def)

lemma ref_fault:
  "setItem_fault (ref_runtime q) st k text = (if q < length text then Some QuotaExceededError else None)"
  by (simp add: ref_runtime_def)

lemma ref_hook_returns [simp]:
  "hook_returns default_vault e operation key"
  "hook_returns (default_vault\<lparr>onError := Some quiet_hook\<rparr>) e operation key"
  by (simp_all add: hook_returns_def default_vault_def quiet_hook_def)

section \<open>The properties\<close>

subsection \<open>C1\<close>



subsection \<open>C2\<close>

text \<open>
  C2. With identity encode/decode, a value set without TTL is returned unchanged by a
  \<open>get\<close> at any later reading of the clock, and \<open>getTTL\<close> of the key is \<open>null\<close>. The
  value is JSON-representable: its record is serialised to a non-empty text that parses
  to the same record; the store accepts the write.
\<close>

theorem C2_round_trip_without_ttl:
  assumes "identity_cipher cfg"
    and "JSON_stringify rt (envelope v JNull (version cfg) md) = Inr text"
    and "text \<noteq> []"
    and "JSON_parse rt text = Inr (envelope v JNull (version cfg) md)"
    and "setItem_fault rt (storage s) (getKey cfg key) text = None"
    and "s1 = snd (set_vault cfg rt now key v None md s)"
  shows "get cfg rt t key s1 = (Inr v, s1) \<and> getTTL cfg rt t key s1 = None"
proof -
  obtain r where set: "set_vault cfg rt now key v None md s = (r, s1)"
    using assms(6) by (metis prod.collapse)
  have enc: "encode cfg rt (envelope v (case None of Some t \<Rightarrow> JNum (now + t) | None \<Rightarrow> JNull)
               (version cfg) md) = Inr text"
    using assms(1,2) by (simp add: identity_encode)
  have dec: "decode cfg rt text = Inr (envelope v JNull (version cfg) md)"
    using assms(1,4) by (simp add: identity_decode)
  have stored: "getItem (storage s1) (getKey cfg key) = Some text"
    using set_vault_written(1) [OF enc assms(5) set] by simp
  have "get cfg rt t key s1 = (Inr v, s1)"
    by (rule get_try_fresh [OF stored assms(3) dec get_prop_envelope(1) _ get_prop_envelope(2)])
       simp
  moreover have "getTTL cfg rt t key s1 = None"
    using stored assms(3) dec by (simp add: getTTL_def)
  ultimately show ?thesis by simp
qed

text \<open>\<open>set("user", {id: 1})\<close> on the reference runtime, then \<open>get\<close> and \<open>getTTL\<close>.\<close>

theorem C2_witness:
  "get default_vault (ref_runtime 1000) 7 ''user''
     (snd (set_vault default_vault (ref_runtime 1000) 0 ''user'' (Json (JObj [(''id'', JNum 1)]))
            None None (stored []))) =
   (Inr (Json (JObj [(''id'', JNum 1)])),
    snd (set_vault default_vault (ref_runtime 1000) 0 ''user'' (Json (JObj [(''id'', JNum 1)]))
            None None (stored []))) \<and>
   getTTL default_vault (ref_runtime 1000) 7 ''user''
     (snd (set_vault default_vault (ref_runtime 1000) 0 ''user'' (Json (JObj [(''id'', JNum 1)]))
            None None (stored []))) = None"
proof -
  let ?rt = "ref_runtime 1000"
  let ?v = "Json (JObj [(''id'', JNum 1)])"
  let ?text = "ref_text ?v JNull"
  have h1: "identity_cipher default_vault"
    by (simp add: identity_cipher_def default_vault_def)
  have h2: "JSON_stringify ?rt (envelope ?v JNull (version default_vault) None) = Inr ?text"
    by (simp add: ref_runtime_def ref_text_def default_vault_def)
  have h3: "?text \<noteq> []" by code_simp
  have h4: "JSON_parse ?rt ?text = Inr (envelope ?v JNull (version default_vault) None)"
    by code_simp
  have h5: "setItem_fault ?rt (storage (stored [])) (getKey default_vault ''user'') ?text = None"
    by code_simp
  show ?thesis
    by (rule C2_round_trip_without_ttl [OF h1 h2 h3 h4 h5 refl])
qed

subsection \<open>C3\<close>

text \<open>
  C3, amended. For two vaults over one store whose prefixes are such that neither is a
  prefix of the other, no stored entry belongs to both, and \<open>clear\<close>, \<open>set\<close>, \<open>get\<close>,
  \<open>remove\<close>, \<open>update\<close>, \<open>cleanupExpired\<close> and \<open>import\<close> on the first leave the entries of
  the second as they were, whatever the runtime and the arguments.
\<close>

theorem C3_incomparable_prefixes_do_not_collide:
  assumes "\<not> startsWith (prefix a) (prefix b)" and "\<not> startsWith (prefix b) (prefix a)"
  shows "set (entries_of a st) \<inter> set (entries_of b st) = {} \<and>
         set (getAllKeys a st) \<inter> set (getAllKeys b st) = {} \<and>
         entries_of b (storage (clear a s)) = entries_of b (storage s) \<and>
         entries_of b (storage (snd (set_vault a rt now key v ttl md s))) = entries_of b (storage s) \<and>
         entries_of b (storage (snd (get a rt now key s))) = entries_of b (storage s) \<and>
         entries_of b (storage (snd (remove_vault a key s))) = entries_of b (storage s) \<and>
         entries_of b (storage (snd (update_vault a rt now key f s))) = entries_of b (storage s) \<and>
         entries_of b (storage (snd (cleanupExpired a rt now s))) = entries_of b (storage s) \<and>
         entries_of b (storage (snd (import_vault a rt now text merge s))) = entries_of b (storage s)"
proof -
  have own: "\<not> (startsWith k (prefix a) \<and> startsWith k (prefix b))" for k
    using assms startsWith_both by blast
  have frame: "entries_of b st' = entries_of b st''" if "foreign a st' = foreign a st''" for st' st''
    using that entries_of_foreign [OF assms] by metis
  have "set (entries_of a st) \<inter> set (entries_of b st) = {}"
    using own by (auto simp: entries_of_def)
  moreover have "set (getAllKeys a st) \<inter> set (getAllKeys b st) = {}"
    using own by (auto simp: set_getAllKeys)
  moreover have "entries_of b (storage (clear a s)) = entries_of b (storage s)"
    by (rule frame [OF foreign_clear])
  moreover have "entries_of b (storage (snd (set_vault a rt now key v ttl md s))) = entries_of b (storage s)"
    by (rule frame [OF foreign_set_vault])
  moreover have "entries_of b (storage (snd (get a rt now key s))) = entries_of b (storage s)"
    by (rule frame [OF foreign_get])
  moreover have "entries_of b (storage (snd (remove_vault a key s))) = entries_of b (storage s)"
    by (rule frame [OF foreign_remove_vault])
  moreover have "entries_of b (storage (snd (update_vault a rt now key f s))) = entries_of b (storage s)"
    by (rule frame [OF foreign_update_vault])
  moreover have "entries_of b (storage (snd (cleanupExpired a rt now s))) = entries_of b (storage s)"
    by (rule frame [OF foreign_cleanupExpired])
  moreover have "entries_of b (storage (snd (import_vault a rt now text merge s))) = entries_of b (storage s)"
    by (rule frame [OF foreign_import_vault])
  ultimately show ?thesis by blast
qed

text \<open>The prefixes \<open>a_\<close> and \<open>b_\<close> of the specification's scenario.\<close>

theorem C3_witness:
  "\<not> startsWith ''a_'' ''b_'' \<and> \<not> startsWith ''b_'' ''a_'' \<and>
   set (getAllKeys (default_vault\<lparr>prefix := ''a_''\<rparr>) [(''a_x'', ''1''), (''b_y'', ''2'')]) \<inter>
   set (getAllKeys (default_vault\<lparr>prefix := ''b_''\<rparr>) [(''a_x'', ''1''), (''b_y'', ''2'')]) = {} \<and>
   entries_of (default_vault\<lparr>prefix := ''b_''\<rparr>)
     (storage (clear (default_vault\<lparr>prefix := ''a_''\<rparr>) (stored [(''a_x'', ''1''), (''b_y'', ''2'')])))
     = [(''b_y'', ''2'')]"
proof -
  let ?a = "default_vault\<lparr>prefix := ''a_''\<rparr>"
  let ?b = "default_vault\<lparr>prefix := ''b_''\<rparr>"
  let ?st = "[(''a_x'', ''1''), (''b_y'', ''2'')]"
  have h1: "\<not> startsWith (prefix ?a) (prefix ?b)" by (simp add: startsWith_def)
  have h2: "\<not> startsWith (prefix ?b) (prefix ?a)" by (simp add: startsWith_def)
  have e: "entries_of ?b (storage (stored ?st)) = [(''b_y'', ''2'')]"
    by (simp add: entries_of_def stored_def startsWith_def)
  from C3_incomparable_prefixes_do_not_collide [OF h1 h2, of ?st "stored ?st"] h1 h2 e
  show ?thesis by simp
qed

text \<open>
  C3 as stated fails for prefixes that differ but overlap: with \<open>a_\<close> and \<open>a_b_\<close>, the
  key \<open>a_b_x\<close> is listed by both vaults, and \<open>clear\<close> on the first deletes the entry of
  the second.
\<close>

theorem C3_counterexample:
  "prefix (default_vault\<lparr>prefix := ''a_''\<rparr>) \<noteq> prefix (default_vault\<lparr>prefix := ''a_b_''\<rparr>) \<and>
   set (getAllKeys (default_vault\<lparr>prefix := ''a_''\<rparr>) [(''a_b_x'', ''1'')]) \<inter>
   set (getAllKeys (default_vault\<lparr>prefix := ''a_b_''\<rparr>) [(''a_b_x'', ''1'')]) \<noteq> {} \<and>
   entries_of (default_vault\<lparr>prefix := ''a_b_''\<rparr>) (storage (stored [(''a_b_x'', ''1'')]))
     = [(''a_b_x'', ''1'')] \<and>
   entries_of (default_vault\<lparr>prefix := ''a_b_''\<rparr>)
     (storage (clear (default_vault\<lparr>prefix := ''a_''\<rparr>) (stored [(''a_b_x'', ''1'')]))) = []"
  by (simp add: getAllKeys_def startsWith_def entries_of_def clear_def stored_def removeItem_def)

subsection \<open>C4\<close>

text \<open>
  C4, amended. When the text stored under the namespaced key is not empty and its
  decryption or its parse throws \<open>e\<close>, \<open>get\<close> reports \<open>e\<close> (to the hook, or to the console
  when there is none), removes the key from the store and returns \<open>null\<close>; the
  subscriptions are untouched; a second \<open>get\<close> returns \<open>null\<close> and changes nothing, so it
  reports nothing. The hook is taken to return. When the stored text is empty, \<open>get\<close>
  returns \<open>null\<close> and changes nothing: the key stays in the store and nothing is
  reported, whatever the vault and the runtime.
\<close>

theorem C4_corrupt_record_self_heals:
  "(getItem (storage s) (getKey cfg key) = Some item \<and> item \<noteq> [] \<and>
    decode cfg rt item = Inl e \<and> hook_returns cfg e ''get'' key
    \<longrightarrow> (\<exists>s'. get cfg rt now key s = (Inr null, s') \<and>
           storage s' = removeItem (getKey cfg key) (storage s) \<and>
           getItem (storage s') (getKey cfg key) = None \<and>
           trace s' = trace s @ [reported cfg e ''get'' key] \<and>
           listeners s' = listeners s \<and>
           get cfg rt later key s' = (Inr null, s'))) \<and>
   (getItem (storage s) (getKey cfg key) = Some [] \<longrightarrow>
      get cfg rt now key s = (Inr null, s))"
proof (intro conjI impI)
  assume a: "getItem (storage s) (getKey cfg key) = Some item \<and> item \<noteq> [] \<and>
    decode cfg rt item = Inl e \<and> hook_returns cfg e ''get'' key"
  then have stored: "getItem (storage s) (getKey cfg key) = Some item" and ne: "item \<noteq> []"
    and dec: "decode cfg rt item = Inl e" and hook: "hook_returns cfg e ''get'' key"
    by blast+
  let ?s' = "s\<lparr>trace := trace s @ [reported cfg e ''get'' key],
               storage := removeItem (getKey cfg key) (storage s)\<rparr>"
  have first: "get cfg rt now key s = (Inr null, ?s')"
    using hook by (simp add: get_def get_try_corrupt [OF stored ne dec] handleError_returns)
  have gone: "getItem (storage ?s') (getKey cfg key) = None"
    by simp
  then have second: "get cfg rt later key ?s' = (Inr null, ?s')"
    by (simp add: get_def get_try_def)
  from first gone second
  show "\<exists>s'. get cfg rt now key s = (Inr null, s') \<and>
           storage s' = removeItem (getKey cfg key) (storage s) \<and>
           getItem (storage s') (getKey cfg key) = None \<and>
           trace s' = trace s @ [reported cfg e ''get'' key] \<and>
           listeners s' = listeners s \<and>
           get cfg rt later key s' = (Inr null, s')"
    by simp
next
  assume "getItem (storage s) (getKey cfg key) = Some []"
  then show "get cfg rt now key s = (Inr null, s)"
    by (simp add: get_def get_try_def)
qed

text \<open>
  A truncated record under \<open>sv_k\<close>, with a hook that returns; and the empty text under
  \<open>sv_k\<close>.
\<close>

theorem C4_witness:
  "(\<exists>s'. get (default_vault\<lparr>onError := Some quiet_hook\<rparr>) (ref_runtime 1000) 5 ''k''
            (stored [(''sv_k'', ''{bad'')]) = (Inr null, s') \<and>
         storage s' = [] \<and>
         trace s' = [OnErrorCall SyntaxError ''get'' ''k''] \<and>
         get (default_vault\<lparr>onError := Some quiet_hook\<rparr>) (ref_runtime 1000) 6 ''k'' s'
           = (Inr null, s')) \<and>
   get (default_vault\<lparr>onError := Some quiet_hook\<rparr>) (ref_runtime 1000) 5 ''k''
     (stored [(''sv_k'', [])]) = (Inr null, stored [(''sv_k'', [])])"
proof -
  let ?cfg = "default_vault\<lparr>onError := Some quiet_hook\<rparr>"
  let ?rt = "ref_runtime 1000"
  let ?s = "stored [(''sv_k'', ''{bad'')]"
  let ?z = "stored [(''sv_k'', [])]"
  have h1: "getItem (storage ?s) (getKey ?cfg ''k'') = Some ''{bad''"
    by (simp add: getItem_def stored_def)
  have h2: "''{bad'' \<noteq> []" by simp
  have h3: "decode ?cfg ?rt ''{bad'' = Inl SyntaxError"
    unfolding ref_decode by code_simp
  have h4: "hook_returns ?cfg SyntaxError ''get'' ''k''" by simp
  have z1: "getItem (storage ?z) (getKey ?cfg ''k'') = Some []"
    by (simp add: getItem_def stored_def)
  have r: "removeItem (getKey ?cfg ''k'') (storage ?s) = []"
    by (simp add: removeItem_def stored_def)
  have t: "trace ?s @ [reported ?cfg SyntaxError ''get'' ''k''] = [OnErrorCall SyntaxError ''get'' ''k'']"
    by (simp add: reported_def stored_def)
  have corrupt: "\<exists>s'. get ?cfg ?rt 5 ''k'' ?s = (Inr null, s') \<and>
           storage s' = removeItem (getKey ?cfg ''k'') (storage ?s) \<and>
           getItem (storage s') (getKey ?cfg ''k'') = None \<and>
           trace s' = trace ?s @ [reported ?cfg SyntaxError ''get'' ''k''] \<and>
           listeners s' = listeners ?s \<and>
           get ?cfg ?rt 6 ''k'' s' = (Inr null, s')"
    by (rule C4_corrupt_record_self_heals [of ?s ?cfg "''k''" "''{bad''" ?rt SyntaxError 5 6,
          THEN conjunct1, THEN mp]) (intro conjI h1 h2 h3 h4)
  have empty: "get ?cfg ?rt 5 ''k'' ?z = (Inr null, ?z)"
    by (rule C4_corrupt_record_self_heals [of ?z ?cfg "''k''" _ ?rt _ 5,
          THEN conjunct2, THEN mp, OF z1])
  from corrupt have "\<exists>s'. get ?cfg ?rt 5 ''k'' ?s = (Inr null, s') \<and>
         storage s' = [] \<and>
         trace s' = [OnErrorCall SyntaxError ''get'' ''k''] \<and>
         get ?cfg ?rt 6 ''k'' s' = (Inr null, s')"
    unfolding r t by blast
  with empty show ?thesis by (intro conjI)
qed

text \<open>
  C4 as stated fails on the empty text: it does not parse, but \<open>get\<close> takes it for a
  missing item (\<open>if (!item) return null\<close>), so the key stays in the store and nothing is
  reported.
\<close>

theorem C4_counterexample:
  "decode default_vault (ref_runtime 1000) '''' = Inl SyntaxError \<and>
   getItem (storage (stored [(''sv_k'', '''')])) (getKey default_vault ''k'') = Some '''' \<and>
   get default_vault (ref_runtime 1000) 0 ''k'' (stored [(''sv_k'', '''')])
     = (Inr null, stored [(''sv_k'', '''')])"
  by (simp add: decode_def default_vault_def ref_runtime_def parse_json_def
       get_def get_try_def getItem_def getKey_def stored_def)

subsection \<open>C5\<close>

text \<open>
  C5, amended. \<open>update\<close> on a key that the store does not hold returns \<open>false\<close> and
  changes nothing: the store is as before and the updater is not called. On a key whose
  record is readable, not expired and holds a value other than \<open>null\<close>, the updater is
  called exactly once, on that value, and when it returns, its result is stored as a
  record without expiry, whatever the expiry of the old record was (the new record is
  encoded and the store accepts it); \<open>update\<close> returns \<open>true\<close> when no subscriber throws.
  On a key whose record is readable, not expired and holds the value \<open>null\<close>, \<open>update\<close>
  returns \<open>false\<close> and changes nothing, as on a key that the store does not hold.
\<close>

theorem C5_update_absent_or_present:
  shows "(getItem (storage s) (getKey cfg key) = None \<longrightarrow>
            update_vault cfg rt now key f s = (Inr False, s)) \<and>
         (getItem (storage s) (getKey cfg key) = Some item \<and> item \<noteq> [] \<and>
          decode cfg rt item = Inr data \<and>
          get_prop data ''expiry'' = Inr ex \<and> \<not> is_expired rt now ex \<and>
          get_prop data ''value'' = Inr current \<and> current \<noteq> null \<and>
          f current = Inr updated \<and>
          encode cfg rt (envelope updated JNull (version cfg) None) = Inr text \<and>
          setItem_fault rt (storage s) (getKey cfg key) text = None \<and>
          s' = snd (update_vault cfg rt now key f s)
          \<longrightarrow> getItem (storage s') (getKey cfg key) = Some text \<and>
              filter is_updater_call (trace s') =
                filter is_updater_call (trace s) @ [UpdaterCall current] \<and>
              (first_throw (subscribers s key) updated = None \<longrightarrow>
                 fst (update_vault cfg rt now key f s) = Inr True)) \<and>
         (getItem (storage s) (getKey cfg key) = Some item \<and> item \<noteq> [] \<and>
          decode cfg rt item = Inr data \<and>
          get_prop data ''expiry'' = Inr ex \<and> \<not> is_expired rt now ex \<and>
          get_prop data ''value'' = Inr null
          \<longrightarrow> update_vault cfg rt now key f s = (Inr False, s))"
proof (intro conjI impI)
  assume "getItem (storage s) (getKey cfg key) = None"
  then show "update_vault cfg rt now key f s = (Inr False, s)"
    by (simp add: update_vault_def get_def get_try_def)
next
  assume a: "getItem (storage s) (getKey cfg key) = Some item \<and> item \<noteq> [] \<and>
          decode cfg rt item = Inr data \<and>
          get_prop data ''expiry'' = Inr ex \<and> \<not> is_expired rt now ex \<and>
          get_prop data ''value'' = Inr current \<and> current \<noteq> null \<and>
          f current = Inr updated \<and>
          encode cfg rt (envelope updated JNull (version cfg) None) = Inr text \<and>
          setItem_fault rt (storage s) (getKey cfg key) text = None \<and>
          s' = snd (update_vault cfg rt now key f s)"
  let ?s2 = "s\<lparr>trace := trace s @ [UpdaterCall current]\<rparr>"
  have g: "get cfg rt now key s = (Inr current, s)"
    using a get_try_fresh [of s cfg key item rt data ex now current] by simp
  have u: "update_vault cfg rt now key f s = set_vault cfg rt now key updated None None ?s2"
    using a g by (simp add: update_vault_def)
  obtain r where set: "set_vault cfg rt now key updated None None ?s2 = (r, s')"
    using a u by (metis prod.collapse)
  have enc: "encode cfg rt (envelope updated (case None of Some t \<Rightarrow> JNum (now + t) | None \<Rightarrow> JNull)
               (version cfg) None) = Inr text"
    using a by simp
  have fault: "setItem_fault rt (storage ?s2) (getKey cfg key) text = None"
    using a by simp
  note w = set_vault_written [OF enc fault set]
  show "getItem (storage s') (getKey cfg key) = Some text"
    using w(1) by simp
  show "filter is_updater_call (trace s') = filter is_updater_call (trace s) @ [UpdaterCall current]"
    using w(3) by simp
  show "fst (update_vault cfg rt now key f s) = Inr True"
    if "first_throw (subscribers s key) updated = None"
    using w(4) that u set by simp
next
  assume a: "getItem (storage s) (getKey cfg key) = Some item \<and> item \<noteq> [] \<and>
          decode cfg rt item = Inr data \<and>
          get_prop data ''expiry'' = Inr ex \<and> \<not> is_expired rt now ex \<and>
          get_prop data ''value'' = Inr null"
  then have stored: "getItem (storage s) (getKey cfg key) = Some item" and ne: "item \<noteq> []"
    and dec: "decode cfg rt item = Inr data" and ex: "get_prop data ''expiry'' = Inr ex"
    and live: "\<not> is_expired rt now ex" and val: "get_prop data ''value'' = Inr null"
    by blast+
  have "get cfg rt now key s = (Inr null, s)"
    by (rule get_try_fresh [OF stored ne dec ex live val])
  then show "update_vault cfg rt now key f s = (Inr False, s)"
    by (simp add: update_vault_def)
qed

text \<open>
  \<open>update("count", ...)\<close> on an empty store, and on a store where \<open>count\<close> is 1 with an
  expiry at 60: the new record holds 2 and has no expiry; and on a store where
  \<open>count\<close> is \<open>null\<close>.
\<close>

theorem C5_witness:
  "update_vault default_vault (ref_runtime 1000) 10 ''count'' (\<lambda>v. Inr (Json (JNum 2))) (stored [])
     = (Inr False, stored []) \<and>
   getItem (storage (snd (update_vault default_vault (ref_runtime 1000) 10 ''count''
       (\<lambda>v. Inr (Json (JNum 2))) (stored [(''sv_count'', ref_text (Json (JNum 1)) (JNum 60))]))))
     ''sv_count'' = Some (ref_text (Json (JNum 2)) JNull) \<and>
   filter is_updater_call (trace (snd (update_vault default_vault (ref_runtime 1000) 10 ''count''
       (\<lambda>v. Inr (Json (JNum 2))) (stored [(''sv_count'', ref_text (Json (JNum 1)) (JNum 60))]))))
     = [UpdaterCall (Json (JNum 1))] \<and>
   fst (update_vault default_vault (ref_runtime 1000) 10 ''count''
       (\<lambda>v. Inr (Json (JNum 2))) (stored [(''sv_count'', ref_text (Json (JNum 1)) (JNum 60))]))
     = Inr True \<and>
   update_vault default_vault (ref_runtime 1000) 10 ''count'' (\<lambda>v. Inr (Json (JNum 2)))
     (stored [(''sv_count'', ref_text null JNull)])
     = (Inr False, stored [(''sv_count'', ref_text null JNull)])"
proof -
  let ?rt = "ref_runtime 1000"
  let ?f = "\<lambda>v::jsval. (Inr (Json (JNum 2)) :: error + jsval)"
  let ?item = "ref_text (Json (JNum 1)) (JNum 60)"
  let ?data = "envelope (Json (JNum 1)) (JNum 60) ''1.0.0'' None"
  let ?text = "ref_text (Json (JNum 2)) JNull"
  let ?s = "stored [(''sv_count'', ?item)]"
  have absent: "getItem (storage (stored [])) (getKey default_vault ''count'') = None"
    by (simp add: getItem_def stored_def)
  have h1: "getItem (storage ?s) (getKey default_vault ''count'') = Some ?item"
    by (simp add: getItem_def stored_def)
  have h2: "?item \<noteq> []" by code_simp
  have h3: "decode default_vault ?rt ?item = Inr ?data"
    unfolding ref_decode by code_simp
  have h4: "get_prop ?data ''expiry'' = Inr (Json (JNum 60))" by simp
  have h5: "\<not> is_expired ?rt 10 (Json (JNum 60))" by simp
  have h6: "get_prop ?data ''value'' = Inr (Json (JNum 1))" by simp
  have h7: "Json (JNum 1) \<noteq> null" by simp
  have h8: "?f (Json (JNum 1)) = Inr (Json (JNum 2))" by simp
  have h9: "encode default_vault ?rt (envelope (Json (JNum 2)) JNull (version default_vault) None)
              = Inr ?text"
    by (rule ref_encode)
  have h10: "setItem_fault ?rt (storage ?s) (getKey default_vault ''count'') ?text = None"
    unfolding ref_fault by code_simp
  have quiet: "first_throw (subscribers ?s ''count'') (Json (JNum 2)) = None"
    by (simp add: subscribers_def stored_def)
  have a: "update_vault default_vault ?rt 10 ''count'' ?f (stored []) = (Inr False, stored [])"
    by (rule C5_update_absent_or_present [of "stored []" default_vault "''count''" ?rt 10 ?f,
          THEN conjunct1, THEN mp, OF absent])
  have b: "getItem (storage (snd (update_vault default_vault ?rt 10 ''count'' ?f ?s)))
             (getKey default_vault ''count'') = Some ?text \<and>
           filter is_updater_call (trace (snd (update_vault default_vault ?rt 10 ''count'' ?f ?s))) =
             filter is_updater_call (trace ?s) @ [UpdaterCall (Json (JNum 1))] \<and>
           (first_throw (subscribers ?s ''count'') (Json (JNum 2)) = None \<longrightarrow>
              fst (update_vault default_vault ?rt 10 ''count'' ?f ?s) = Inr True)"
    by (rule C5_update_absent_or_present [of ?s default_vault "''count''" ?rt 10 ?f ?item ?data
            "Json (JNum 60)" "Json (JNum 1)" "Json (JNum 2)" ?text
            "snd (update_vault default_vault ?rt 10 ''count'' ?f ?s)",
            THEN conjunct2, THEN conjunct1, THEN mp])
       (intro conjI h1 h2 h3 h4 h5 h6 h7 h8 h9 h10 refl)
  have tr: "trace ?s = []" by (simp add: stored_def)
  let ?n = "stored [(''sv_count'', ref_text null JNull)]"
  let ?ndata = "envelope null JNull ''1.0.0'' None"
  have n1: "getItem (storage ?n) (getKey default_vault ''count'') = Some (ref_text null JNull)"
    by (simp add: getItem_def stored_def)
  have n2: "ref_text null JNull \<noteq> []" by code_simp
  have n3: "decode default_vault ?rt (ref_text null JNull) = Inr ?ndata"
    unfolding ref_decode by code_simp
  have n4: "get_prop ?ndata ''expiry'' = Inr null" by simp
  have n5: "\<not> is_expired ?rt 10 null" by simp
  have n6: "get_prop ?ndata ''value'' = Inr null" by simp
  have c: "update_vault default_vault ?rt 10 ''count'' ?f ?n = (Inr False, ?n)"
    by (rule C5_update_absent_or_present [of ?n default_vault "''count''" ?rt 10 ?f
            "ref_text null JNull" ?ndata null, THEN conjunct2, THEN conjunct2, THEN mp])
       (intro conjI n1 n2 n3 n4 n5 n6)
  from a b quiet tr have main:
    "update_vault default_vault ?rt 10 ''count'' ?f (stored []) = (Inr False, stored []) \<and>
     getItem (storage (snd (update_vault default_vault ?rt 10 ''count'' ?f ?s))) ''sv_count''
       = Some ?text \<and>
     filter is_updater_call (trace (snd (update_vault default_vault ?rt 10 ''count'' ?f ?s)))
       = [UpdaterCall (Json (JNum 1))] \<and>
     fst (update_vault default_vault ?rt 10 ''count'' ?f ?s) = Inr True"
    by simp
  from main c show ?thesis by blast
qed

text \<open>
  C5 as stated fails on a present key whose value is \<open>null\<close>: after \<open>set("k", null)\<close> the
  record is in the store, readable and without expiry, but \<open>update\<close> takes the \<open>null\<close>
  that \<open>get\<close> returns for a missing key, returns \<open>false\<close> and does not call the updater.
\<close>

theorem C5_counterexample:
  "getItem (storage (snd (set_vault default_vault (ref_runtime 1000) 0 ''k'' null None None (stored []))))
     ''sv_k'' = Some (ref_text null JNull) \<and>
   decode default_vault (ref_runtime 1000) (ref_text null JNull)
     = Inr (envelope null JNull ''1.0.0'' None) \<and>
   update_vault default_vault (ref_runtime 1000) 1 ''k'' (\<lambda>v. Inr (Json (JNum 1)))
     (snd (set_vault default_vault (ref_runtime 1000) 0 ''k'' null None None (stored [])))
     = (Inr False,
        snd (set_vault default_vault (ref_runtime 1000) 0 ''k'' null None None (stored [])))"
proof -
  let ?rt = "ref_runtime 1000"
  let ?text = "ref_text null JNull"
  have len: "\<not> 1000 < length ?text" by code_simp
  have s1: "set_vault default_vault ?rt 0 ''k'' null None None (stored [])
              = (Inr True, stored [(''sv_k'', ?text)])"
    using len
    by (simp add: set_vault_def set_try_def ref_encode [unfolded default_vault_def, simplified]
          default_vault_def setItem_def ref_fault getKey_def notifyListeners_def stored_def)
  have d: "decode default_vault ?rt ?text = Inr (envelope null JNull ''1.0.0'' None)"
    unfolding ref_decode by code_simp
  have ne: "?text \<noteq> []" by code_simp
  have g: "get default_vault ?rt 1 ''k'' (stored [(''sv_k'', ?text)])
             = (Inr null, stored [(''sv_k'', ?text)])"
    by (rule get_try_fresh [OF _ ne d get_prop_envelope(1) _ get_prop_envelope(2)])
       (simp_all add: getItem_def stored_def)
  show ?thesis
    unfolding s1 using d g by (simp add: update_vault_def getItem_def stored_def)
qed

subsection \<open>C6\<close>

text \<open>
  C6, amended. \<open>cleanupExpired\<close> returns the number of the vault's keys that, at the
  call, hold a non-empty text that is unreadable or expired; the store after the call is
  the store before it without the entries of exactly those keys; none of them is in the
  store or among \<open>keys()\<close> afterwards.
\<close>

theorem C6_cleanupExpired_counts_and_deletes:
  "fst (cleanupExpired cfg rt now s) = card {k. condemned cfg rt now (storage s) k} \<and>
   storage (snd (cleanupExpired cfg rt now s)) =
     filter (\<lambda>p. \<not> condemned cfg rt now (storage s) (fst p)) (storage s) \<and>
   (\<forall>k. condemned cfg rt now (storage s) k \<longrightarrow>
      getItem (storage (snd (cleanupExpired cfg rt now s))) k = None \<and>
      drop (length (prefix cfg)) k \<notin> set (keys cfg (snd (cleanupExpired cfg rt now s))))"
proof -
  let ?st = "storage s"
  let ?ks = "getAllKeys cfg ?st"
  let ?s' = "snd (cleanupExpired cfg rt now s)"
  have sets: "{k \<in> set ?ks. flagged cfg rt now ?st k} = {k. condemned cfg rt now ?st k}"
    by (auto simp: condemned_flagged)
  have count: "fst (cleanupExpired cfg rt now s) = card {k. condemned cfg rt now ?st k}"
    by (simp add: cleanupExpired_def cleanup_loop_result sets)
  have store: "storage ?s' = filter (\<lambda>p. \<not> condemned cfg rt now ?st (fst p)) ?st"
    by (simp add: cleanupExpired_def cleanup_loop_result condemned_flagged)
  have gone: "getItem (storage ?s') k = None \<and> drop (length (prefix cfg)) k \<notin> set (keys cfg ?s')"
    if c: "condemned cfg rt now ?st k" for k
  proof
    have notin: "k \<notin> fst ` set (storage ?s')"
      using c unfolding store by auto
    then show "getItem (storage ?s') k = None"
      by (simp add: getItem_def map_of_eq_None_iff)
    show "drop (length (prefix cfg)) k \<notin> set (keys cfg ?s')"
    proof
      assume "drop (length (prefix cfg)) k \<in> set (keys cfg ?s')"
      then obtain k' where k': "k' \<in> set (getAllKeys cfg (storage ?s'))"
        and eq: "drop (length (prefix cfg)) k' = drop (length (prefix cfg)) k"
        by (auto simp: keys_def)
      have "startsWith k' (prefix cfg)" using k' by (simp add: set_getAllKeys)
      moreover have "startsWith k (prefix cfg)" using c by (simp add: condemned_def)
      ultimately have "k' = k"
        using eq startsWith_split by metis
      then show False using k' notin by (simp add: set_getAllKeys)
    qed
  qed
  from count store gone show ?thesis by blast
qed

text \<open>
  A store with an expired record, an unparsable text, a live record and a key of another
  prefix, cleaned at time 50: two keys are counted and removed.
\<close>

theorem C6_witness:
  "card {k. condemned default_vault (ref_runtime 1000) 50
              (storage (stored [(''sv_a'', ref_text (Json (JNum 1)) (JNum 10)), (''sv_b'', ''garbage''),
                 (''sv_c'', ref_text (Json (JNum 3)) JNull), (''other_d'', ''zzz'')])) k} = 2 \<and>
   condemned default_vault (ref_runtime 1000) 50
     (storage (stored [(''sv_a'', ref_text (Json (JNum 1)) (JNum 10)), (''sv_b'', ''garbage''),
        (''sv_c'', ref_text (Json (JNum 3)) JNull), (''other_d'', ''zzz'')])) ''sv_b'' \<and>
   getItem (storage (snd (cleanupExpired default_vault (ref_runtime 1000) 50
     (stored [(''sv_a'', ref_text (Json (JNum 1)) (JNum 10)), (''sv_b'', ''garbage''),
        (''sv_c'', ref_text (Json (JNum 3)) JNull), (''other_d'', ''zzz'')])))) ''sv_b'' = None \<and>
   ''b'' \<notin> set (keys default_vault (snd (cleanupExpired default_vault (ref_runtime 1000) 50
     (stored [(''sv_a'', ref_text (Json (JNum 1)) (JNum 10)), (''sv_b'', ''garbage''),
        (''sv_c'', ref_text (Json (JNum 3)) JNull), (''other_d'', ''zzz'')])))) \<and>
   storage (snd (cleanupExpired default_vault (ref_runtime 1000) 50
     (stored [(''sv_a'', ref_text (Json (JNum 1)) (JNum 10)), (''sv_b'', ''garbage''),
        (''sv_c'', ref_text (Json (JNum 3)) JNull), (''other_d'', ''zzz'')])))
     = [(''sv_c'', ref_text (Json (JNum 3)) JNull), (''other_d'', ''zzz'')]"
proof -
  let ?rt = "ref_runtime 1000"
  let ?s = "stored [(''sv_a'', ref_text (Json (JNum 1)) (JNum 10)), (''sv_b'', ''garbage''),
        (''sv_c'', ref_text (Json (JNum 3)) JNull), (''other_d'', ''zzz'')]"
  note c6 = C6_cleanupExpired_counts_and_deletes [of default_vault ?rt 50 ?s]
  have n: "fst (cleanupExpired default_vault ?rt 50 ?s) = 2" by code_simp
  have st: "storage (snd (cleanupExpired default_vault ?rt 50 ?s))
              = [(''sv_c'', ref_text (Json (JNum 3)) JNull), (''other_d'', ''zzz'')]"
    by code_simp
  have c: "condemned default_vault ?rt 50 (storage ?s) ''sv_b''" by code_simp
  have d: "drop (length (prefix default_vault)) ''sv_b'' = ''b''"
    by (simp add: default_vault_def)
  from c6 have "card {k. condemned default_vault ?rt 50 (storage ?s) k} = 2"
    using n by simp
  moreover from c6 c have "getItem (storage (snd (cleanupExpired default_vault ?rt 50 ?s))) ''sv_b'' = None
      \<and> drop (length (prefix default_vault)) ''sv_b'' \<notin> set (keys default_vault (snd (cleanupExpired default_vault ?rt 50 ?s)))"
    by blast
  ultimately show ?thesis using c d st by simp
qed

text \<open>
  C6 as stated fails on a key that holds the empty text: the text cannot be decoded, but
  the pass skips it (\<open>if (!item) return\<close>), counts nothing, and \<open>keys()\<close> still lists it.
\<close>

theorem C6_counterexample:
  "decode default_vault (ref_runtime 1000) '''' = Inl SyntaxError \<and>
   getAllKeys default_vault (storage (stored [(''sv_k'', '''')])) = [''sv_k''] \<and>
   cleanupExpired default_vault (ref_runtime 1000) 0 (stored [(''sv_k'', '''')])
     = (0, stored [(''sv_k'', '''')]) \<and>
   keys default_vault (stored [(''sv_k'', '''')]) = [''k'']"
  by (simp add: decode_def default_vault_def ref_runtime_def parse_json_def
       cleanupExpired_def getAllKeys_def startsWith_def getItem_def keys_def stored_def)

subsection \<open>C7\<close>



subsection \<open>C8\<close>

text \<open>
  C8. The claim is that no public operation lets an error through to the caller. The
  code does so in \<open>remove\<close>, which calls the subscribers outside any \<open>try\<close> (while \<open>set\<close>
  calls them inside its \<open>try\<close>), and in \<open>update\<close>, which calls the updater outside any
  \<open>try\<close>: a subscriber that throws makes \<open>remove\<close> throw, an updater that throws makes
  \<open>update\<close> throw.
\<close>

theorem C8_update_and_remove_let_errors_through:
  "fst (remove_vault default_vault ''user'' (subscribed [] ''user'' [throwing_callback]))
     = Inl (Thrown ''subscriber'') \<and>
   fst (update_vault default_vault (ref_runtime 1000) 0 ''count'' (\<lambda>v. Inl (Thrown ''updater''))
          (stored [(''sv_count'', ref_text (Json (JNum 1)) JNull)]))
     = Inl (Thrown ''updater'')"
  by code_simp

subsection \<open>C9\<close>

text \<open>
  C9. When \<open>get\<close> finds an expired record, the key is removed from the store and the
  key's subscribers are called with \<open>null\<close>, in order, up to the first that throws; when
  none throws, \<open>get\<close> returns \<open>null\<close> in exactly the state that \<open>remove\<close> gives. When
  \<open>get\<close> finds a non-empty text whose decoding throws, no subscriber is called, and
  (the hook returning) the key is removed from the store and \<open>null\<close> returned.
\<close>

theorem C9_eviction_notifies_corruption_does_not:
  shows "(getItem (storage s) (getKey cfg key) = Some item \<and> item \<noteq> [] \<and>
          decode cfg rt item = Inr data \<and>
          get_prop data ''expiry'' = Inr ex \<and> is_expired rt now ex \<and>
          s' = snd (get cfg rt now key s)
          \<longrightarrow> storage s' = removeItem (getKey cfg key) (storage s) \<and>
              filter is_listener_call (trace s') =
                filter is_listener_call (trace s) @
                notices (called (subscribers s key) null) null \<and>
              (first_throw (subscribers s key) null = None \<longrightarrow>
                 get cfg rt now key s = (Inr null, snd (remove_vault cfg key s)) \<and>
                 trace s' = trace s @ notices (subscribers s key) null)) \<and>
         (getItem (storage s) (getKey cfg key) = Some item \<and> item \<noteq> [] \<and>
          decode cfg rt item = Inl e \<and>
          s' = snd (get cfg rt now key s)
          \<longrightarrow> filter is_listener_call (trace s') = filter is_listener_call (trace s) \<and>
              (hook_returns cfg e ''get'' key \<longrightarrow>
                 fst (get cfg rt now key s) = Inr null \<and>
                 storage s' = removeItem (getKey cfg key) (storage s)))"
proof (intro conjI impI)
  assume a: "getItem (storage s) (getKey cfg key) = Some item \<and> item \<noteq> [] \<and>
          decode cfg rt item = Inr data \<and>
          get_prop data ''expiry'' = Inr ex \<and> is_expired rt now ex \<and>
          s' = snd (get cfg rt now key s)"
  then have stored: "getItem (storage s) (getKey cfg key) = Some item" and ne: "item \<noteq> []"
    and dec: "decode cfg rt item = Inr data" and ex: "get_prop data ''expiry'' = Inr ex"
    and old: "is_expired rt now ex" and s': "s' = snd (get cfg rt now key s)"
    by blast+
  obtain r where g: "get cfg rt now key s = (r, s')"
    using s' by (cases "get cfg rt now key s") simp
  note st = get_stale [OF stored ne dec ex old g]
  show "storage s' = removeItem (getKey cfg key) (storage s)" by (rule st(1))
  show "filter is_listener_call (trace s') =
          filter is_listener_call (trace s) @ notices (called (subscribers s key) null) null"
    by (rule st(3))
  assume quiet: "first_throw (subscribers s key) null = None"
  show "trace s' = trace s @ notices (subscribers s key) null"
    using st(4) [OF quiet] by blast
  show "get cfg rt now key s = (Inr null, snd (remove_vault cfg key s))"
    using st(4) [OF quiet] g by simp
next
  assume a: "getItem (storage s) (getKey cfg key) = Some item \<and> item \<noteq> [] \<and>
          decode cfg rt item = Inl e \<and> s' = snd (get cfg rt now key s)"
  then have stored: "getItem (storage s) (getKey cfg key) = Some item" and ne: "item \<noteq> []"
    and dec: "decode cfg rt item = Inl e" and s': "s' = snd (get cfg rt now key s)"
    by blast+
  have t: "get_try cfg rt now key s = (Inl e, s)"
    by (rule get_try_corrupt [OF stored ne dec])
  obtain r2 s2 where h: "handleError cfg e ''get'' key s = (r2, s2)"
    by (cases "handleError cfg e ''get'' key s")
  note hs = handleError_state [OF h]
  have "trace s' = trace s @ [reported cfg e ''get'' key]"
    unfolding s' get_def t using h hs by (cases r2) simp_all
  then show "filter is_listener_call (trace s') = filter is_listener_call (trace s)"
    by simp
  assume "hook_returns cfg e ''get'' key"
  then show "fst (get cfg rt now key s) = Inr null"
    and "storage s' = removeItem (getKey cfg key) (storage s)"
    unfolding s' get_def t by (simp_all add: handleError_returns)
qed

text \<open>A subscribed key holding an expired record, and the same key holding an unparsable text.\<close>

theorem C9_witness:
  "get default_vault (ref_runtime 1000) 50 ''k''
     (subscribed [(''sv_k'', ref_text (Json (JNum 1)) (JNum 10))] ''k'' [quiet_callback])
     = (Inr null,
        snd (remove_vault default_vault ''k''
          (subscribed [(''sv_k'', ref_text (Json (JNum 1)) (JNum 10))] ''k'' [quiet_callback]))) \<and>
   trace (snd (get default_vault (ref_runtime 1000) 50 ''k''
     (subscribed [(''sv_k'', ref_text (Json (JNum 1)) (JNum 10))] ''k'' [quiet_callback])))
     = [ListenerCall 1 null] \<and>
   storage (snd (get default_vault (ref_runtime 1000) 50 ''k''
     (subscribed [(''sv_k'', ref_text (Json (JNum 1)) (JNum 10))] ''k'' [quiet_callback]))) = [] \<and>
   filter is_listener_call (trace (snd (get default_vault (ref_runtime 1000) 50 ''k''
     (subscribed [(''sv_k'', ''garbage'')] ''k'' [quiet_callback])))) = [] \<and>
   storage (snd (get default_vault (ref_runtime 1000) 50 ''k''
     (subscribed [(''sv_k'', ''garbage'')] ''k'' [quiet_callback]))) = []"
proof -
  let ?rt = "ref_runtime 1000"
  let ?item = "ref_text (Json (JNum 1)) (JNum 10)"
  let ?data = "envelope (Json (JNum 1)) (JNum 10) ''1.0.0'' None"
  let ?s = "subscribed [(''sv_k'', ?item)] ''k'' [quiet_callback]"
  let ?c = "subscribed [(''sv_k'', ''garbage'')] ''k'' [quiet_callback]"
  have h1: "getItem (storage ?s) (getKey default_vault ''k'') = Some ?item"
    by (simp add: getItem_def subscribed_def)
  have h2: "?item \<noteq> []" by code_simp
  have h3: "decode default_vault ?rt ?item = Inr ?data"
    unfolding ref_decode by code_simp
  have h4: "get_prop ?data ''expiry'' = Inr (Json (JNum 10))" by simp
  have h5: "is_expired ?rt 50 (Json (JNum 10))" by simp
  have subs: "subscribers ?s ''k'' = [quiet_callback]" "subscribers ?c ''k'' = [quiet_callback]"
    by (simp_all add: subscribers_def subscribed_def)
  have quiet: "first_throw (subscribers ?s ''k'') null = None"
    unfolding subs by (simp add: quiet_callback_def)
  have expired:
    "storage (snd (get default_vault ?rt 50 ''k'' ?s)) = removeItem (getKey default_vault ''k'') (storage ?s) \<and>
     filter is_listener_call (trace (snd (get default_vault ?rt 50 ''k'' ?s))) =
       filter is_listener_call (trace ?s) @ notices (called (subscribers ?s ''k'') null) null \<and>
     (first_throw (subscribers ?s ''k'') null = None \<longrightarrow>
        get default_vault ?rt 50 ''k'' ?s = (Inr null, snd (remove_vault default_vault ''k'' ?s)) \<and>
        trace (snd (get default_vault ?rt 50 ''k'' ?s)) = trace ?s @ notices (subscribers ?s ''k'') null)"
    by (rule C9_eviction_notifies_corruption_does_not [of ?s default_vault "''k''" ?item ?rt ?data
          "Json (JNum 10)" 50 "snd (get default_vault ?rt 50 ''k'' ?s)", THEN conjunct1, THEN mp])
       (intro conjI h1 h2 h3 h4 h5 refl)
  have g1: "getItem (storage ?c) (getKey default_vault ''k'') = Some ''garbage''"
    by (simp add: getItem_def subscribed_def)
  have g2: "''garbage'' \<noteq> []" by simp
  have g3: "decode default_vault ?rt ''garbage'' = Inl SyntaxError"
    unfolding ref_decode by code_simp
  have corrupt:
    "filter is_listener_call (trace (snd (get default_vault ?rt 50 ''k'' ?c))) =
       filter is_listener_call (trace ?c) \<and>
     (hook_returns default_vault SyntaxError ''get'' ''k'' \<longrightarrow>
        fst (get default_vault ?rt 50 ''k'' ?c) = Inr null \<and>
        storage (snd (get default_vault ?rt 50 ''k'' ?c)) =
          removeItem (getKey default_vault ''k'') (storage ?c))"
    by (rule C9_eviction_notifies_corruption_does_not [of ?c default_vault "''k''" "''garbage''" ?rt _ _ 50
          "snd (get default_vault ?rt 50 ''k'' ?c)" SyntaxError, THEN conjunct2, THEN mp])
       (intro conjI g1 g2 g3 refl)
  have r: "removeItem (getKey default_vault ''k'') (storage ?s) = []"
          "removeItem (getKey default_vault ''k'') (storage ?c) = []"
    by (simp_all add: removeItem_def subscribed_def)
  have t: "trace ?s @ notices (subscribers ?s ''k'') null = [ListenerCall 1 null]"
          "filter is_listener_call (trace ?c) = []"
    unfolding subs by (simp_all add: notices_def quiet_callback_def subscribed_def)
  have e1: "get default_vault ?rt 50 ''k'' ?s = (Inr null, snd (remove_vault default_vault ''k'' ?s))"
    and e2: "trace (snd (get default_vault ?rt 50 ''k'' ?s)) = [ListenerCall 1 null]"
    and e3: "storage (snd (get default_vault ?rt 50 ''k'' ?s)) = []"
    using expired quiet unfolding r t by blast+
  have c1: "filter is_listener_call (trace (snd (get default_vault ?rt 50 ''k'' ?c))) = []"
    and c2: "storage (snd (get default_vault ?rt 50 ''k'' ?c)) = []"
    using corrupt ref_hook_returns(1) unfolding r t by blast+
  show ?thesis
    by (intro conjI e1 e2 e3 c1 c2)
qed

subsection \<open>C10\<close>



end
